theory Spec2Isabelle
  imports Main "HOL-Library.Word" "HOL-Library.List_Lexorder" "HOL-Library.Multiset"
begin

text \<open>
  A model of the sparse matrix of \<^verbatim>\<open>sparse_matrix.hpp\<close> and of the two loops of
  \<^verbatim>\<open>main.cpp\<close> that fill it, and proofs of what the matrix does: writing and reading
  a cell through the chain of index proxies, the elision of the default value,
  enumeration, and copies.
\<close>

chapter \<open>The model\<close>

section \<open>The container: \<^verbatim>\<open>std::map\<close> as a key-ordered sequence of entries\<close>

text \<open>
  \<^verbatim>\<open>sparse_matrix\<close> keeps its cells in a \<^verbatim>\<open>std::map<index_t, value_type_t>\<close>.
  A \<^verbatim>\<open>std::map\<close> is modelled by the sequence of its (key, value) pairs in
  iteration order, keys strictly ascending. An iterator is a position in that
  sequence; the past-the-end iterator is the length of the sequence.

  First the operations on sequences of pairs:
  \<^item> \<open>find_raw\<close>: the position of the entry with key \<open>k\<close>, or the length when no entry
    has that key;
  \<^item> \<open>subscript_assign_raw\<close>: the sequence after \<^verbatim>\<open>d[k] = v\<close>, which overwrites the
    value of the entry with key \<open>k\<close>, or inserts \<open>(k, v)\<close> before the first entry with a
    greater key;
  \<^item> \<open>erase_raw\<close>: the sequence without the entry at a position;
  \<^item> \<open>assign_second_raw\<close>: the sequence with the value of the entry at a position
    replaced.

  Erasing or writing at a position that holds no entry is undefined in C++ (the
  iterator is \<^verbatim>\<open>end()\<close> or invalid). The matrix never does it, and the two functions
  leave the sequence as it is there.
\<close>

fun find_raw :: "'k \<Rightarrow> ('k \<times> 'v) list \<Rightarrow> nat" where
  "find_raw k [] = 0"
| "find_raw k (e # xs) = (if fst e = k then 0 else Suc (find_raw k xs))"

fun subscript_assign_raw :: "'k::linorder \<Rightarrow> 'v \<Rightarrow> ('k \<times> 'v) list \<Rightarrow> ('k \<times> 'v) list" where
  "subscript_assign_raw k v [] = [(k, v)]"
| "subscript_assign_raw k v (e # xs) =
     (if k < fst e then (k, v) # e # xs
      else if fst e < k then e # subscript_assign_raw k v xs
      else (k, v) # xs)"

fun erase_raw :: "nat \<Rightarrow> 'a list \<Rightarrow> 'a list" where
  "erase_raw it [] = []"
| "erase_raw 0 (e # xs) = xs"
| "erase_raw (Suc it) (e # xs) = e # erase_raw it xs"

definition assign_second_raw :: "nat \<Rightarrow> 'v \<Rightarrow> ('k \<times> 'v) list \<Rightarrow> ('k \<times> 'v) list" where
  "assign_second_raw it v xs = (if it < length xs then xs[it := (fst (xs ! it), v)] else xs)"

typedef (overloaded) ('k, 'v) std_map =
  "{xs :: ('k::linorder \<times> 'v) list. sorted_wrt (<) (map fst xs)}"
  morphisms entries Abs_std_map
  by (rule exI [of _ "[]"]) simp

setup_lifting type_definition_std_map

text \<open>A default-constructed map, and any map after \<^verbatim>\<open>clear()\<close>.\<close>

lift_definition std_map_empty :: "('k::linorder, 'v) std_map" is "[]"
  by simp

definition std_map_clear :: "('k::linorder, 'v) std_map \<Rightarrow> ('k, 'v) std_map" where
  "std_map_clear d = std_map_empty"

text \<open>\<^verbatim>\<open>size()\<close>, \<^verbatim>\<open>begin()\<close>/\<^verbatim>\<open>cbegin()\<close> and \<^verbatim>\<open>end()\<close>/\<^verbatim>\<open>cend()\<close>.\<close>

lift_definition std_map_size :: "('k::linorder, 'v) std_map \<Rightarrow> nat" is length .

definition std_map_begin :: "('k::linorder, 'v) std_map \<Rightarrow> nat" where
  "std_map_begin d = 0"

definition std_map_end :: "('k::linorder, 'v) std_map \<Rightarrow> nat" where
  "std_map_end d = std_map_size d"

text \<open>\<^verbatim>\<open>find(k)\<close>: the iterator to the entry with key \<open>k\<close>, or \<^verbatim>\<open>end()\<close>.\<close>

lift_definition std_map_find :: "('k::linorder, 'v) std_map \<Rightarrow> 'k \<Rightarrow> nat"
  is "\<lambda>xs k. find_raw k xs" .

text \<open>
  \<^verbatim>\<open>*it\<close>: the pair (\<^verbatim>\<open>first\<close>, \<^verbatim>\<open>second\<close>) of the entry at \<open>it\<close>. Dereferencing \<^verbatim>\<open>end()\<close> is
  undefined in C++; every use below is at a position less than \<^verbatim>\<open>size()\<close>.
\<close>

definition std_map_deref :: "('k::linorder, 'v) std_map \<Rightarrow> nat \<Rightarrow> 'k \<times> 'v" where
  "std_map_deref d it = entries d ! it"

text \<open>\<^verbatim>\<open>erase(it)\<close> removes the entry at \<open>it\<close>.\<close>

lift_definition std_map_erase :: "('k::linorder, 'v) std_map \<Rightarrow> nat \<Rightarrow> ('k, 'v) std_map"
  is "\<lambda>xs it. erase_raw it xs"
proof -
  fix xs :: "('k \<times> 'v) list" and it :: nat
  have sub: "set (erase_raw i ys) \<subseteq> set ys" for i and ys :: "('k \<times> 'v) list"
    by (induction i ys rule: erase_raw.induct) auto
  assume "sorted_wrt (<) (map fst xs)"
  then show "sorted_wrt (<) (map fst (erase_raw it xs))"
  proof (induction it xs rule: erase_raw.induct)
    case (1 it)
    show ?case by simp
  next
    case (2 e xs)
    then show ?case by simp
  next
    case (3 it e xs)
    have "\<forall>x \<in> set xs. fst e < fst x" and tl: "sorted_wrt (<) (map fst xs)"
      using "3.prems" by simp_all
    then have "\<forall>x \<in> set (erase_raw it xs). fst e < fst x"
      using sub [of it xs] by blast
    then show ?case using "3.IH" [OF tl] by simp
  qed
qed

text \<open>
  \<^verbatim>\<open>d[k] = v\<close>: \<^verbatim>\<open>operator[]\<close> finds the entry of \<open>k\<close>, inserting one at its place in
  the key order when there is none, and the assignment stores \<open>v\<close> in it.
\<close>

lift_definition std_map_subscript_assign ::
  "('k::linorder, 'v) std_map \<Rightarrow> 'k \<Rightarrow> 'v \<Rightarrow> ('k, 'v) std_map"
  is "\<lambda>xs k v. subscript_assign_raw k v xs"
proof -
  fix xs :: "('k \<times> 'v) list" and k :: 'k and v :: 'v
  have keys: "fst ` set (subscript_assign_raw k v ys) = insert k (fst ` set ys)"
    for ys :: "('k \<times> 'v) list"
    by (induction ys) (auto simp: rev_image_eqI)
  assume "sorted_wrt (<) (map fst xs)"
  then show "sorted_wrt (<) (map fst (subscript_assign_raw k v xs))"
  proof (induction xs)
    case Nil
    show ?case by simp
  next
    case (Cons e xs)
    have tl: "sorted_wrt (<) (map fst (subscript_assign_raw k v xs))"
      using Cons by simp
    have above: "\<forall>x \<in> fst ` set xs. fst e < x"
      using Cons.prems by simp
    consider "k < fst e" | "fst e < k" | "k = fst e"
      by (metis less_linear)
    then show ?case
    proof cases
      case 1
      then have "\<forall>x \<in> fst ` set xs. k < x"
        using above by (meson less_trans)
      then show ?thesis using 1 Cons.prems by simp
    next
      case 2
      have "\<forall>x \<in> fst ` set (subscript_assign_raw k v xs). fst e < x"
        unfolding keys using above 2 by simp
      moreover have "\<not> k < fst e" using 2 by simp
      ultimately show ?thesis using 2 tl by simp
    next
      case 3
      then show ?thesis using Cons.prems by simp
    qed
  qed
qed

text \<open>
  \<^verbatim>\<open>it->second = v\<close> through a non-const reference to the mapped value of the
  entry at \<open>it\<close>: the value is replaced in place, the key stays.
\<close>

lift_definition std_map_assign_second ::
  "('k::linorder, 'v) std_map \<Rightarrow> nat \<Rightarrow> 'v \<Rightarrow> ('k, 'v) std_map"
  is "\<lambda>xs it v. assign_second_raw it v xs"
proof -
  fix xs :: "('k \<times> 'v) list" and it :: nat and v :: 'v
  have "map fst (assign_second_raw it v xs) = map fst xs"
    by (simp add: assign_second_raw_def map_update list_update_same_conv)
  moreover assume "sorted_wrt (<) (map fst xs)"
  ultimately show "sorted_wrt (<) (map fst (assign_second_raw it v xs))"
    by simp
qed

text \<open>The content of a map as a partial function, for stating what the operations do.\<close>

definition lookup :: "('k::linorder, 'v) std_map \<Rightarrow> 'k \<Rightarrow> 'v option" where
  "lookup d = map_of (entries d)"

section \<open>The class template \<^verbatim>\<open>sparse_matrix<value_type_t, default_value, matrix_size>\<close>\<close>

text \<open>
  The template arguments \<^verbatim>\<open>default_value\<close> and \<^verbatim>\<open>matrix_size\<close> are arguments
  of the functions that depend on them. The members \<^verbatim>\<open>default_value_\<close> are constant
  copies of the template argument, so the only state of a matrix is \<^verbatim>\<open>data_\<close> (the
  field \<open>data\<close>). An index (\<^verbatim>\<open>index_t\<close>) is a \<^verbatim>\<open>std::tuple\<close> of \<^verbatim>\<open>matrix_size\<close>
  components of type \<^verbatim>\<open>size_t\<close>, modelled by the list of its components.
\<close>

type_synonym size_t = "64 word"

type_synonym index_t = "size_t list"

type_synonym 'v contener_t = "(index_t, 'v) std_map"

text \<open>
  The order of the keys is \<^verbatim>\<open>std::less<index_t>\<close>, that is \<^verbatim>\<open>operator<\<close> of \<^verbatim>\<open>std::tuple\<close>:
  \<^verbatim>\<open>get<0>(t) < get<0>(u) || (!(get<0>(u) < get<0>(t)) && ttail < utail)\<close>, and \<^verbatim>\<open>false\<close> for
  empty tuples. The program only compares tuples of the same size; on lists of
  different lengths, a proper prefix comes first. The order \<open>(<)\<close> of the keys of
  \<open>contener_t\<close> is this order (\<open>index_less_tuple_less\<close> below).
\<close>

fun tuple_less :: "index_t \<Rightarrow> index_t \<Rightarrow> bool" where
  "tuple_less (x # xs) (y # ys) \<longleftrightarrow> x < y \<or> (\<not> y < x \<and> tuple_less xs ys)"
| "tuple_less [] (y # ys) \<longleftrightarrow> True"
| "tuple_less xs [] \<longleftrightarrow> False"

record 'v sparse_matrix =
  data :: "'v contener_t"

subsection \<open>The index proxies \<^verbatim>\<open>index_matrix<num, types_t...>\<close>\<close>

text \<open>
  A proxy keeps a reference \<^verbatim>\<open>data_\<close> to the container of the matrix and the tuple
  \<^verbatim>\<open>index_view_\<close> of the indices given so far (\<open>index_view\<close>, \<open>iv\<close> below). The
  reference is modelled by passing the container to the member functions that use
  it, and by returning the container from the one that changes it. The primary
  template (\<open>Index_matrix\<close>, with the template argument \<^verbatim>\<open>num\<close>) only has \<^verbatim>\<open>operator[]\<close>;
  the specialisation for \<^verbatim>\<open>num = 0\<close> (\<open>Index_matrix_0\<close>) only has the assignment and the
  conversion to the value type.
\<close>

datatype index_matrix = Index_matrix (num: size_t) (index_view: index_t)

datatype index_matrix_0 = Index_matrix_0 index_t

text \<open>
  Constructing \<^verbatim>\<open>index_matrix<n, size_t, ...>(index_view, data_)\<close> selects the
  specialisation when \<open>n = 0\<close>.
\<close>

definition next_index :: "size_t \<Rightarrow> index_t \<Rightarrow> index_matrix + index_matrix_0" where
  "next_index n iv =
     (if n = 0 then Inr (Index_matrix_0 iv) else Inl (Index_matrix n iv))"

text \<open>\<^verbatim>\<open>sparse_matrix::operator[]\<close>: \<^verbatim>\<open>next_index\<close> is \<^verbatim>\<open>index_matrix<matrix_size - 1, size_t>\<close>.\<close>

definition matrix_subscript :: "size_t \<Rightarrow> size_t \<Rightarrow> index_matrix + index_matrix_0" where
  "matrix_subscript matrix_size index = next_index (matrix_size - 1) [index]"

text \<open>
  \<^verbatim>\<open>index_matrix::operator[]\<close>: \<^verbatim>\<open>next_index\<close> is \<^verbatim>\<open>index_matrix<num - 1, types_t..., size_t>\<close>,
  built from \<^verbatim>\<open>std::tuple_cat(index_view, std::tie(index))\<close>.
\<close>

definition index_subscript :: "index_matrix \<Rightarrow> size_t \<Rightarrow> index_matrix + index_matrix_0" where
  "index_subscript p index = next_index (num p - 1) (index_view p @ [index])"

text \<open>
  A chain of further subscripts \<^verbatim>\<open>p[i1][i2]...\<close>. Subscripting the specialisation for
  \<^verbatim>\<open>num = 0\<close> is ill-formed (it has no \<^verbatim>\<open>operator[]\<close>): \<open>None\<close>.
\<close>

fun index_chain ::
  "index_matrix + index_matrix_0 \<Rightarrow> size_t list \<Rightarrow> (index_matrix + index_matrix_0) option" where
  "index_chain p [] = Some p"
| "index_chain (Inl p) (i # is) = index_chain (index_subscript p i) is"
| "index_chain (Inr t) (i # is) = None"

text \<open>
  The expression \<^verbatim>\<open>matrix[c1][c2]...[ck]\<close> used as a cell (assigned to, or converted
  to the value type): well-formed when the chain ends in the specialisation.
\<close>

definition cell :: "size_t \<Rightarrow> index_t \<Rightarrow> index_matrix_0 option" where
  "cell matrix_size c =
     (case c of
        [] \<Rightarrow> None
      | i # is \<Rightarrow>
          (case index_chain (matrix_subscript matrix_size i) is of
             Some (Inr t) \<Rightarrow> Some t
           | _ \<Rightarrow> None))"

text \<open>\<^verbatim>\<open>index_matrix<0, types_t...>::operator=(const value_type_t &value)\<close>.\<close>

fun index_assign :: "'v \<Rightarrow> index_matrix_0 \<Rightarrow> 'v \<Rightarrow> 'v contener_t \<Rightarrow> 'v contener_t" where
  "index_assign default_value (Index_matrix_0 iv) v d =
     (if v \<noteq> default_value then std_map_subscript_assign d iv v
      else (let it = std_map_find d iv in
            if it \<noteq> std_map_end d then std_map_erase d it else d))"

text \<open>\<^verbatim>\<open>index_matrix<0, types_t...>::operator const value_type_t &() const\<close>.\<close>

fun index_value :: "'v \<Rightarrow> index_matrix_0 \<Rightarrow> 'v contener_t \<Rightarrow> 'v" where
  "index_value default_value (Index_matrix_0 iv) d =
     (let it = std_map_find d iv in
      if it \<noteq> std_map_end d then snd (std_map_deref d it) else default_value)"

subsection \<open>The matrix\<close>

text \<open>The default constructor leaves \<^verbatim>\<open>data_\<close> empty.\<close>

definition sparse_matrix_default :: "'v sparse_matrix" where
  "sparse_matrix_default = \<lparr>data = std_map_empty\<rparr>"

definition size_m :: "'v sparse_matrix \<Rightarrow> nat" where
  "size_m m = std_map_size (data m)"

definition clear :: "'v sparse_matrix \<Rightarrow> 'v sparse_matrix" where
  "clear m = m\<lparr>data := std_map_clear (data m)\<rparr>"

text \<open>
  The copy constructor copies the container (\<^verbatim>\<open>data_(other.data_)\<close>). The move
  constructor and the move assignment take the container of \<open>other\<close> over; each returns
  the constructed or assigned matrix together with \<open>other\<close> after the move. The C++
  standard leaves a moved-from \<^verbatim>\<open>std::map\<close> in a valid but unspecified state; the
  implementations of the standard library leave it empty, and so does the model.
\<close>

definition copy_ctor :: "'v sparse_matrix \<Rightarrow> 'v sparse_matrix" where
  "copy_ctor other = \<lparr>data = data other\<rparr>"

definition move_ctor :: "'v sparse_matrix \<Rightarrow> 'v sparse_matrix \<times> 'v sparse_matrix" where
  "move_ctor other = (\<lparr>data = data other\<rparr>, other\<lparr>data := std_map_empty\<rparr>)"

definition move_assign ::
  "'v sparse_matrix \<Rightarrow> 'v sparse_matrix \<Rightarrow> 'v sparse_matrix \<times> 'v sparse_matrix" where
  "move_assign this other = (this\<lparr>data := data other\<rparr>, other\<lparr>data := std_map_empty\<rparr>)"

text \<open>
  \<^verbatim>\<open>operator==\<close> compares the containers; two \<^verbatim>\<open>std::map\<close>s are equal when they have the
  same sequence of entries.
\<close>

definition equal_m :: "'v sparse_matrix \<Rightarrow> 'v sparse_matrix \<Rightarrow> bool" where
  "equal_m this other \<longleftrightarrow> entries (data this) = entries (data other)"

text \<open>
  The copy assignment is
  \<^verbatim>\<open>if (*this != other) data_ = other.data_; return *this;\<close>.
  The class declares \<^verbatim>\<open>operator==\<close> and no \<^verbatim>\<open>operator!=\<close>, neither as a member nor at
  namespace scope, and the header uses no \<^verbatim>\<open>std::rel_ops\<close>. What \<^verbatim>\<open>*this != other\<close> means
  is therefore up to the language standard the program is built with, which is a
  setting of the build and a parameter here. The header needs C++14 at least (the
  return type of \<^verbatim>\<open>auto begin()\<close> is deduced). In C++14 and C++17 overload resolution
  finds no \<^verbatim>\<open>operator!=\<close> for the two matrices: a program that calls the copy
  assignment is ill-formed, and the copy assignment has no result, \<open>None\<close>. From C++20
  on, overload resolution also has the rewritten candidate \<^verbatim>\<open>!(*this == other)\<close>, and
  the comparison is the negation of \<^verbatim>\<open>operator==\<close>.
\<close>

datatype standard = Cxx14 | Cxx17 | Cxx20 | Cxx23

fun rewritten_candidates :: "standard \<Rightarrow> bool" where
  "rewritten_candidates Cxx14 \<longleftrightarrow> False"
| "rewritten_candidates Cxx17 \<longleftrightarrow> False"
| "rewritten_candidates Cxx20 \<longleftrightarrow> True"
| "rewritten_candidates Cxx23 \<longleftrightarrow> True"

definition copy_assign ::
  "standard \<Rightarrow> 'v sparse_matrix \<Rightarrow> 'v sparse_matrix \<Rightarrow> 'v sparse_matrix option" where
  "copy_assign std this other =
     (if rewritten_candidates std
      then Some (if \<not> equal_m this other then this\<lparr>data := data other\<rparr> else this)
      else None)"

text \<open>
  The statements \<^verbatim>\<open>matrix[c1]...[ck] = v\<close> and the read \<^verbatim>\<open>matrix[c1]...[ck]\<close> converted to
  the value type. The read returns the value and the matrix after it: the conversion
  operator is \<^verbatim>\<open>const\<close> and calls only \<^verbatim>\<open>find\<close> and \<^verbatim>\<open>cend\<close> on the container.
\<close>

definition assign_cell ::
  "'v \<Rightarrow> size_t \<Rightarrow> 'v sparse_matrix \<Rightarrow> index_t \<Rightarrow> 'v \<Rightarrow> 'v sparse_matrix option" where
  "assign_cell default_value matrix_size m c v =
     (case cell matrix_size c of
        None \<Rightarrow> None
      | Some t \<Rightarrow> Some (m\<lparr>data := index_assign default_value t v (data m)\<rparr>))"

definition read_cell ::
  "'v \<Rightarrow> size_t \<Rightarrow> 'v sparse_matrix \<Rightarrow> index_t \<Rightarrow> ('v \<times> 'v sparse_matrix) option" where
  "read_cell default_value matrix_size m c =
     (case cell matrix_size c of
        None \<Rightarrow> None
      | Some t \<Rightarrow> Some (index_value default_value t (data m), m))"

text \<open>A coordinate holds an explicit entry when \<^verbatim>\<open>find\<close> does not return \<^verbatim>\<open>end()\<close>.\<close>

definition explicit :: "'v sparse_matrix \<Rightarrow> index_t \<Rightarrow> bool" where
  "explicit m c \<longleftrightarrow> std_map_find (data m) c \<noteq> std_map_end (data m)"

text \<open>A sequence of assignment statements \<^verbatim>\<open>matrix[c] = v\<close>, run in order.\<close>

fun assign_cells ::
  "'v \<Rightarrow> size_t \<Rightarrow> 'v sparse_matrix \<Rightarrow> (index_t \<times> 'v) list \<Rightarrow> 'v sparse_matrix option" where
  "assign_cells default_value matrix_size m [] = Some m"
| "assign_cells default_value matrix_size m (w # ws) =
     (case assign_cell default_value matrix_size m (fst w) (snd w) of
        None \<Rightarrow> None
      | Some m' \<Rightarrow> assign_cells default_value matrix_size m' ws)"

subsection \<open>Iterators and enumeration\<close>

text \<open>
  \<^verbatim>\<open>const_iterator_matrix\<close> and \<^verbatim>\<open>iterator_matrix\<close> wrap an iterator of the
  container. Dereferencing gives \<^verbatim>\<open>std::tuple_cat(it->first, std::tie(it->second))\<close>:
  one tuple of the index components followed by the value, here the list of the
  components, \<open>Inl\<close> an index component and \<open>Inr\<close> the value. In the tuple that
  \<^verbatim>\<open>iterator_matrix\<close> gives, the last component is a non-const reference to the stored
  value, and assigning through it replaces the value in the container.
\<close>

type_synonym 'v value_t = "(size_t + 'v) list"

definition tuple_cat :: "index_t \<Rightarrow> 'v \<Rightarrow> 'v value_t" where
  "tuple_cat first second = map Inl first @ [Inr second]"

datatype const_iterator_matrix = Const_iterator_matrix nat

datatype iterator_matrix = Iterator_matrix nat

definition cbegin :: "'v sparse_matrix \<Rightarrow> const_iterator_matrix" where
  "cbegin m = Const_iterator_matrix (std_map_begin (data m))"

definition cend :: "'v sparse_matrix \<Rightarrow> const_iterator_matrix" where
  "cend m = Const_iterator_matrix (std_map_end (data m))"

fun const_iterator_incr :: "const_iterator_matrix \<Rightarrow> const_iterator_matrix" where
  "const_iterator_incr (Const_iterator_matrix it) = Const_iterator_matrix (Suc it)"

fun const_iterator_eq :: "const_iterator_matrix \<Rightarrow> const_iterator_matrix \<Rightarrow> bool" where
  "const_iterator_eq (Const_iterator_matrix it) (Const_iterator_matrix other) \<longleftrightarrow> it = other"

definition const_iterator_neq :: "const_iterator_matrix \<Rightarrow> const_iterator_matrix \<Rightarrow> bool" where
  "const_iterator_neq it other \<longleftrightarrow> \<not> const_iterator_eq it other"

fun const_iterator_deref :: "'v sparse_matrix \<Rightarrow> const_iterator_matrix \<Rightarrow> 'v value_t" where
  "const_iterator_deref m (Const_iterator_matrix it) =
     tuple_cat (fst (std_map_deref (data m) it)) (snd (std_map_deref (data m) it))"

definition begin_m :: "'v sparse_matrix \<Rightarrow> iterator_matrix" where
  "begin_m m = Iterator_matrix (std_map_begin (data m))"

definition end_m :: "'v sparse_matrix \<Rightarrow> iterator_matrix" where
  "end_m m = Iterator_matrix (std_map_end (data m))"

fun iterator_incr :: "iterator_matrix \<Rightarrow> iterator_matrix" where
  "iterator_incr (Iterator_matrix it) = Iterator_matrix (Suc it)"

fun iterator_eq :: "iterator_matrix \<Rightarrow> iterator_matrix \<Rightarrow> bool" where
  "iterator_eq (Iterator_matrix it) (Iterator_matrix other) \<longleftrightarrow> it = other"

definition iterator_neq :: "iterator_matrix \<Rightarrow> iterator_matrix \<Rightarrow> bool" where
  "iterator_neq it other \<longleftrightarrow> \<not> iterator_eq it other"

fun iterator_deref :: "'v sparse_matrix \<Rightarrow> iterator_matrix \<Rightarrow> 'v value_t" where
  "iterator_deref m (Iterator_matrix it) =
     tuple_cat (fst (std_map_deref (data m) it)) (snd (std_map_deref (data m) it))"

text \<open>
  \<^verbatim>\<open>std::get<matrix_size>(*it) = v\<close> for an \<^verbatim>\<open>iterator_matrix\<close> \<open>it\<close>: the assignment goes
  through the reference to \<^verbatim>\<open>it->second\<close>.
\<close>

fun iterator_assign_value :: "'v sparse_matrix \<Rightarrow> iterator_matrix \<Rightarrow> 'v \<Rightarrow> 'v sparse_matrix" where
  "iterator_assign_value m (Iterator_matrix it) v =
     m\<lparr>data := std_map_assign_second (data m) it v\<rparr>"

text \<open>
  A full enumeration: the loop
  \<^verbatim>\<open>for (auto it = m.cbegin(); it != m.cend(); ++it) out.push_back(*it);\<close>
  and the same loop over \<^verbatim>\<open>begin()\<close> and \<^verbatim>\<open>end()\<close>, which a range-based \<^verbatim>\<open>for\<close> runs.
\<close>

partial_function (option) const_enumerate_from ::
  "'v sparse_matrix \<Rightarrow> const_iterator_matrix \<Rightarrow> 'v value_t list \<Rightarrow> 'v value_t list option" where
  "const_enumerate_from m it out =
     (if const_iterator_neq it (cend m)
      then const_enumerate_from m (const_iterator_incr it) (out @ [const_iterator_deref m it])
      else Some out)"

definition const_enumeration :: "'v sparse_matrix \<Rightarrow> 'v value_t list option" where
  "const_enumeration m = const_enumerate_from m (cbegin m) []"

partial_function (option) enumerate_from ::
  "'v sparse_matrix \<Rightarrow> iterator_matrix \<Rightarrow> 'v value_t list \<Rightarrow> 'v value_t list option" where
  "enumerate_from m it out =
     (if iterator_neq it (end_m m)
      then enumerate_from m (iterator_incr it) (out @ [iterator_deref m it])
      else Some out)"

definition enumeration :: "'v sparse_matrix \<Rightarrow> 'v value_t list option" where
  "enumeration m = enumerate_from m (begin_m m) []"

section \<open>Several matrices: construction, copy, move\<close>

text \<open>
  The matrix objects of a program, by name. A statement that names an object not yet
  constructed, or constructs one a second time, or assigns to an ill-formed chain of
  subscripts, or is a copy assignment where the language standard \<open>std\<close> of the build
  gives \<^verbatim>\<open>*this != other\<close> no meaning, is not a statement of a well-formed program:
  \<open>None\<close>.
\<close>

type_synonym 'v objects = "nat \<Rightarrow> 'v sparse_matrix option"

datatype 'v statement =
    Default_construct nat
  | Copy_construct nat nat
  | Move_construct nat nat
  | Copy_assign nat nat
  | Move_assign nat nat
  | Assign nat index_t 'v
  | Clear nat
  | Iterator_assign nat nat 'v

text \<open>
  \<open>Default_construct x\<close> is \<^verbatim>\<open>sparse_matrix<...> x;\<close>, \<open>Copy_construct x y\<close> is
  \<^verbatim>\<open>sparse_matrix<...> x(y);\<close>, \<open>Move_construct x y\<close> is \<^verbatim>\<open>sparse_matrix<...> x(std::move(y));\<close>,
  \<open>Copy_assign x y\<close> is \<^verbatim>\<open>x = y;\<close>, \<open>Move_assign x y\<close> is \<^verbatim>\<open>x = std::move(y);\<close>,
  \<open>Assign x c v\<close> is \<^verbatim>\<open>x[c1]...[ck] = v;\<close> and \<open>Clear x\<close> is \<^verbatim>\<open>x.clear();\<close>.
  \<open>Iterator_assign x n v\<close> is \<^verbatim>\<open>std::get<matrix_size>(*it) = v;\<close> for the iterator \<open>it\<close> that
  \<open>n\<close> increments of \<^verbatim>\<open>x.begin()\<close> give; it is undefined in C++ unless \<open>n\<close> is less than
  \<^verbatim>\<open>x.size()\<close>. The move of an object into itself (\<open>Move_assign x x\<close>) leaves it empty.
\<close>

fun exec :: "standard \<Rightarrow> 'v \<Rightarrow> size_t \<Rightarrow> 'v statement \<Rightarrow> 'v objects \<Rightarrow> 'v objects option" where
  "exec std default_value matrix_size (Default_construct x) s =
     (case s x of
        None \<Rightarrow> Some (s(x \<mapsto> sparse_matrix_default))
      | Some this \<Rightarrow> None)"
| "exec std default_value matrix_size (Copy_construct x y) s =
     (case (s x, s y) of
        (None, Some other) \<Rightarrow> Some (s(x \<mapsto> copy_ctor other))
      | _ \<Rightarrow> None)"
| "exec std default_value matrix_size (Move_construct x y) s =
     (case (s x, s y) of
        (None, Some other) \<Rightarrow>
          Some (s(x \<mapsto> fst (move_ctor other), y \<mapsto> snd (move_ctor other)))
      | _ \<Rightarrow> None)"
| "exec std default_value matrix_size (Copy_assign x y) s =
     (case (s x, s y) of
        (Some this, Some other) \<Rightarrow>
          (case copy_assign std this other of
             None \<Rightarrow> None
           | Some this' \<Rightarrow> Some (s(x \<mapsto> this')))
      | _ \<Rightarrow> None)"
| "exec std default_value matrix_size (Move_assign x y) s =
     (case (s x, s y) of
        (Some this, Some other) \<Rightarrow>
          Some (s(x \<mapsto> fst (move_assign this other), y \<mapsto> snd (move_assign this other)))
      | _ \<Rightarrow> None)"
| "exec std default_value matrix_size (Assign x c v) s =
     (case s x of
        None \<Rightarrow> None
      | Some this \<Rightarrow>
          (case assign_cell default_value matrix_size this c v of
             None \<Rightarrow> None
           | Some this' \<Rightarrow> Some (s(x \<mapsto> this'))))"
| "exec std default_value matrix_size (Clear x) s =
     (case s x of
        None \<Rightarrow> None
      | Some this \<Rightarrow> Some (s(x \<mapsto> clear this)))"
| "exec std default_value matrix_size (Iterator_assign x n v) s =
     (case s x of
        None \<Rightarrow> None
      | Some this \<Rightarrow>
          if n < size_m this
          then Some (s(x \<mapsto> iterator_assign_value this ((iterator_incr ^^ n) (begin_m this)) v))
          else None)"

text \<open>
  A program is a list of statements, run in order from a state of the objects. The
  start of a program is the state \<open>Map.empty\<close>, where no matrix is constructed yet.
\<close>

fun run :: "standard \<Rightarrow> 'v \<Rightarrow> size_t \<Rightarrow> 'v statement list \<Rightarrow> 'v objects \<Rightarrow> 'v objects option" where
  "run std default_value matrix_size [] s = Some s"
| "run std default_value matrix_size (st # sts) s =
     (case exec std default_value matrix_size st s of
        None \<Rightarrow> None
      | Some s' \<Rightarrow> run std default_value matrix_size sts s')"

text \<open>The objects a statement can change.\<close>

fun writes :: "'v statement \<Rightarrow> nat set" where
  "writes (Default_construct x) = {x}"
| "writes (Copy_construct x y) = {x}"
| "writes (Move_construct x y) = {x, y}"
| "writes (Copy_assign x y) = {x}"
| "writes (Move_assign x y) = {x, y}"
| "writes (Assign x c v) = {x}"
| "writes (Clear x) = {x}"
| "writes (Iterator_assign x n v) = {x}"

text \<open>The statements that assign the default value through an iterator.\<close>

fun default_through_iterator :: "'v \<Rightarrow> 'v statement \<Rightarrow> bool" where
  "default_through_iterator default_value (Iterator_assign x n v) \<longleftrightarrow> v = default_value"
| "default_through_iterator default_value st \<longleftrightarrow> False"

text \<open>No entry of the matrix holds the default value.\<close>

definition elided :: "'v \<Rightarrow> 'v sparse_matrix \<Rightarrow> bool" where
  "elided default_value m \<longleftrightarrow> (\<forall>e \<in> set (entries (data m)). snd e \<noteq> default_value)"

text \<open>Every key of the matrix has \<^verbatim>\<open>matrix_size\<close> components.\<close>

definition dimensioned :: "size_t \<Rightarrow> 'v sparse_matrix \<Rightarrow> bool" where
  "dimensioned matrix_size m \<longleftrightarrow>
     (\<forall>e \<in> set (entries (data m)). length (fst e) = unat matrix_size)"

section \<open>The two diagonals of \<^verbatim>\<open>main\<close>\<close>

text \<open>
  \<^verbatim>\<open>main\<close> declares \<^verbatim>\<open>sparse_matrix<int> matrix\<close> (default value 0, two dimensions) and
  fills its main diagonal and its secondary diagonal, each in a loop
  \<^verbatim>\<open>for (size_t i = 0; i < num_elem; ++i)\<close>, with the bodies
  \<^verbatim>\<open>matrix[i][i] = static_cast<int>(i);\<close> and
  \<^verbatim>\<open>matrix[i][(num_elem - 1) - i] = static_cast<int>((num_elem - 1) - i);\<close>.
  The constant \<^verbatim>\<open>num_elem\<close> is an \<^verbatim>\<open>int\<close>, converted to \<^verbatim>\<open>size_t\<close> where it meets \<open>i\<close>. An
  \<^verbatim>\<open>int\<close> is a word of 32 bits, and \<^verbatim>\<open>static_cast<int>\<close> of a \<^verbatim>\<open>size_t\<close> keeps its low 32
  bits. Each loop is a function of the counter and the matrix; \<open>main_writes\<close> is the
  matrix after both.
\<close>

type_synonym int_t = "32 word"

definition num_elem :: size_t where
  "num_elem = 10"

function fill_main_diagonal :: "size_t \<Rightarrow> int_t sparse_matrix \<Rightarrow> int_t sparse_matrix option" where
  "fill_main_diagonal i matrix =
     (if i < num_elem
      then (case assign_cell 0 2 matrix [i, i] (ucast i) of
              None \<Rightarrow> None
            | Some matrix' \<Rightarrow> fill_main_diagonal (i + 1) matrix')
      else Some matrix)"
  by pat_completeness auto
termination
proof (relation "measure (\<lambda>(i, matrix). unat (num_elem - i))")
  show "wf (measure (\<lambda>(i, matrix). unat (num_elem - i)))" by simp
next
  fix i :: size_t and matrix x2 :: "int_t sparse_matrix"
  assume "i < num_elem"
  then have "unat i < 10" by (simp add: num_elem_def word_less_nat_alt)
  then have "unat (num_elem - (i + 1)) < unat (num_elem - i)"
    unfolding num_elem_def by (simp add: unat_sub_if' unat_word_ariths word_le_nat_alt)
  then show "((i + 1, x2), i, matrix) \<in> measure (\<lambda>(i, matrix). unat (num_elem - i))"
    by simp
qed

function fill_secondary_diagonal :: "size_t \<Rightarrow> int_t sparse_matrix \<Rightarrow> int_t sparse_matrix option" where
  "fill_secondary_diagonal i matrix =
     (if i < num_elem
      then (case assign_cell 0 2 matrix [i, (num_elem - 1) - i] (ucast ((num_elem - 1) - i)) of
              None \<Rightarrow> None
            | Some matrix' \<Rightarrow> fill_secondary_diagonal (i + 1) matrix')
      else Some matrix)"
  by pat_completeness auto
termination
proof (relation "measure (\<lambda>(i, matrix). unat (num_elem - i))")
  show "wf (measure (\<lambda>(i, matrix). unat (num_elem - i)))" by simp
next
  fix i :: size_t and matrix x2 :: "int_t sparse_matrix"
  assume "i < num_elem"
  then have "unat i < 10" by (simp add: num_elem_def word_less_nat_alt)
  then have "unat (num_elem - (i + 1)) < unat (num_elem - i)"
    unfolding num_elem_def by (simp add: unat_sub_if' unat_word_ariths word_le_nat_alt)
  then show "((i + 1, x2), i, matrix) \<in> measure (\<lambda>(i, matrix). unat (num_elem - i))"
    by simp
qed

definition main_writes :: "int_t sparse_matrix option" where
  "main_writes =
     (case fill_main_diagonal 0 sparse_matrix_default of
        None \<Rightarrow> None
      | Some matrix \<Rightarrow> fill_secondary_diagonal 0 matrix)"

chapter \<open>Properties of the model\<close>

section \<open>The container\<close>

lemma find_raw_le: "find_raw k xs \<le> length xs"
  by (induction xs) auto

lemma find_raw_less_iff: "find_raw k xs < length xs \<longleftrightarrow> k \<in> fst ` set xs"
  by (induction xs) auto

lemma find_raw_end_iff: "find_raw k xs = length xs \<longleftrightarrow> k \<notin> fst ` set xs"
  using find_raw_le [of k xs] find_raw_less_iff [of k xs] by linarith

lemma find_raw_key: "k \<in> fst ` set xs \<Longrightarrow> fst (xs ! find_raw k xs) = k"
  by (induction xs) auto

lemma find_raw_map_of:
  "map_of xs k = (if find_raw k xs = length xs then None else Some (snd (xs ! find_raw k xs)))"
proof (induction xs)
  case Nil
  show ?case by simp
next
  case (Cons e xs)
  show ?case
  proof (cases "fst e = k")
    case True
    then show ?thesis by (cases e) simp
  next
    case False
    then show ?thesis using Cons by (cases e) simp
  qed
qed

lemma map_of_subscript_assign_raw:
  "map_of (subscript_assign_raw k v xs) = (map_of xs)(k \<mapsto> v)"
proof (induction xs)
  case Nil
  show ?case by simp
next
  case (Cons e xs)
  obtain k' v' where e: "e = (k', v')" by (cases e)
  consider "k < k'" | "k' < k" | "k = k'"
    by (metis less_linear)
  then show ?case
  proof cases
    case 1
    then show ?thesis by (auto simp: e)
  next
    case 2
    then have "k \<noteq> k'" by auto
    then show ?thesis using 2 Cons by (auto simp: e fun_eq_iff)
  next
    case 3
    then show ?thesis by (auto simp: e)
  qed
qed

lemma length_subscript_assign_raw:
  "sorted_wrt (<) (map fst xs) \<Longrightarrow>
   length (subscript_assign_raw k v xs) = (if k \<in> fst ` set xs then length xs else Suc (length xs))"
proof (induction xs)
  case Nil
  show ?case by simp
next
  case (Cons e xs)
  have above: "\<forall>x \<in> fst ` set xs. fst e < x"
    using Cons.prems by simp
  consider "k < fst e" | "fst e < k" | "k = fst e"
    by (metis less_linear)
  then show ?case
  proof cases
    case 1
    then have "k \<notin> fst ` set xs" using above by (metis less_asym)
    then show ?thesis using 1 by simp
  next
    case 2
    then show ?thesis using Cons by auto
  next
    case 3
    then show ?thesis by simp
  qed
qed

lemma length_erase_raw: "it < length xs \<Longrightarrow> Suc (length (erase_raw it xs)) = length xs"
  by (induction it xs rule: erase_raw.induct) auto

lemma map_of_erase_find_raw:
  fixes xs :: "('k::linorder \<times> 'v) list"
  shows "sorted_wrt (<) (map fst xs) \<Longrightarrow>
   map_of (erase_raw (find_raw k xs) xs) = (map_of xs)(k := None)"
proof (induction xs)
  case Nil
  show ?case by simp
next
  case (Cons e xs)
  obtain k' v' where e: "e = (k', v')" by (cases e)
  show ?case
  proof (cases "k' = k")
    case True
    have above: "\<forall>x \<in> fst ` set xs. k < x" using Cons.prems True e by simp
    have "k \<notin> fst ` set xs"
    proof
      assume "k \<in> fst ` set xs"
      with above have "k < k" by (rule bspec)
      then show False by simp
    qed
    then have none: "map_of xs k = None" by (simp add: map_of_eq_None_iff)
    have "erase_raw (find_raw k (e # xs)) (e # xs) = xs"
      by (simp add: e True)
    moreover have "(map_of (e # xs))(k := None) = map_of xs"
      using none by (auto simp: e True fun_eq_iff)
    ultimately show ?thesis by (simp only:)
  next
    case False
    have "sorted_wrt (<) (map fst xs)"
      using Cons.prems by simp
    then have IH: "map_of (erase_raw (find_raw k xs) xs) = (map_of xs)(k := None)"
      by (rule Cons.IH)
    have "erase_raw (find_raw k (e # xs)) (e # xs) = e # erase_raw (find_raw k xs) xs"
      using False by (simp add: e)
    then have "map_of (erase_raw (find_raw k (e # xs)) (e # xs))
        = ((map_of xs)(k := None))(k' \<mapsto> v')"
      by (simp only: e map_of.simps IH fst_conv snd_conv)
    also have "\<dots> = (map_of (e # xs))(k := None)"
      using False by (auto simp: e fun_eq_iff)
    finally show ?thesis .
  qed
qed

lemma erase_find_subscript_assign_raw:
  "k \<notin> fst ` set xs \<Longrightarrow>
   erase_raw (find_raw k (subscript_assign_raw k v xs)) (subscript_assign_raw k v xs) = xs"
  by (induction xs) auto

lemma entries_from_map_of:
  "distinct (map fst xs) \<Longrightarrow> map (\<lambda>k. (k, the (map_of xs k))) (map fst xs) = xs"
proof (induction xs)
  case Nil
  show ?case by simp
next
  case (Cons e xs)
  obtain k v where e: "e = (k, v)" by (cases e)
  have notin: "k \<notin> fst ` set xs" using Cons.prems e by simp
  have "map (\<lambda>k'. (k', the (map_of (e # xs) k'))) (map fst xs)
      = map (\<lambda>k'. (k', the (map_of xs k'))) (map fst xs)"
  proof (rule map_cong [OF refl])
    fix k' assume "k' \<in> set (map fst xs)"
    then have "k' \<noteq> k" using notin by auto
    then show "(k', the (map_of (e # xs) k')) = (k', the (map_of xs k'))"
      by (simp add: e)
  qed
  also have "\<dots> = xs"
    using Cons by simp
  finally have tl: "map (\<lambda>k'. (k', the (map_of (e # xs) k'))) (map fst xs) = xs" .
  have "map (\<lambda>k'. (k', the (map_of (e # xs) k'))) (map fst (e # xs))
      = (k, the (map_of (e # xs) k)) # map (\<lambda>k'. (k', the (map_of (e # xs) k'))) (map fst xs)"
    by (simp add: e)
  also have "\<dots> = e # xs"
    unfolding tl by (simp add: e)
  finally show ?case .
qed

lemma sorted_entries_unique:
  assumes "sorted_wrt (<) (map fst xs)" and "sorted_wrt (<) (map fst ys)"
    and "map_of xs = map_of ys"
  shows "xs = (ys :: ('k::linorder \<times> 'v) list)"
proof -
  have dx: "distinct (map fst xs)" and sx: "sorted (map fst xs)"
    using assms(1) strict_sorted_iff by blast+
  have dy: "distinct (map fst ys)" and sy: "sorted (map fst ys)"
    using assms(2) strict_sorted_iff by blast+
  have "set (map fst xs) = set (map fst ys)"
    using assms(3) by (metis dom_map_of_conv_image_fst set_map)
  then have keys: "map fst xs = map fst ys"
    using sorted_distinct_set_unique [OF sx dx sy dy] by simp
  have "xs = map (\<lambda>k. (k, the (map_of xs k))) (map fst xs)"
    by (rule entries_from_map_of [OF dx, symmetric])
  also have "\<dots> = map (\<lambda>k. (k, the (map_of ys k))) (map fst ys)"
    by (simp add: keys assms(3))
  also have "\<dots> = ys"
    by (rule entries_from_map_of [OF dy])
  finally show ?thesis .
qed

lemma sorted_entries: "sorted_wrt (<) (map fst (entries d))"
  using entries [of d] by simp

lemma distinct_entries: "distinct (map fst (entries d))"
  using sorted_entries [of d] strict_sorted_iff by blast

lemma std_map_eqI: "lookup a = lookup b \<Longrightarrow> a = b"
  unfolding lookup_def
  using sorted_entries_unique [OF sorted_entries sorted_entries] entries_inject by blast

lemma lookup_empty: "lookup std_map_empty = Map.empty"
  by (simp add: lookup_def std_map_empty.rep_eq)

lemma find_end_iff: "std_map_find d k = std_map_end d \<longleftrightarrow> lookup d k = None"
  by (simp add: std_map_find.rep_eq std_map_end_def std_map_size.rep_eq lookup_def
      find_raw_end_iff map_of_eq_None_iff)

lemma find_less_size: "std_map_find d k \<noteq> std_map_end d \<Longrightarrow> std_map_find d k < std_map_size d"
  using find_raw_le [of k "entries d"]
  by (simp add: std_map_find.rep_eq std_map_end_def std_map_size.rep_eq)

lemma deref_find:
  "std_map_find d k \<noteq> std_map_end d \<Longrightarrow>
   std_map_deref d (std_map_find d k) = (k, the (lookup d k))"
proof -
  assume found: "std_map_find d k \<noteq> std_map_end d"
  then have ne: "find_raw k (entries d) \<noteq> length (entries d)"
    by (simp add: std_map_find.rep_eq std_map_end_def std_map_size.rep_eq)
  then have "k \<in> fst ` set (entries d)"
    by (simp add: find_raw_end_iff)
  then have "fst (entries d ! find_raw k (entries d)) = k"
    by (rule find_raw_key)
  moreover have "the (lookup d k) = snd (entries d ! find_raw k (entries d))"
    using ne by (simp add: lookup_def find_raw_map_of [of "entries d" k])
  ultimately show ?thesis
    by (simp add: std_map_deref_def std_map_find.rep_eq prod_eq_iff)
qed

lemma lookup_subscript_assign:
  "lookup (std_map_subscript_assign d k v) = (lookup d)(k \<mapsto> v)"
  by (simp add: lookup_def std_map_subscript_assign.rep_eq map_of_subscript_assign_raw)

lemma size_subscript_assign:
  "std_map_size (std_map_subscript_assign d k v) =
     (if lookup d k = None then Suc (std_map_size d) else std_map_size d)"
  using length_subscript_assign_raw [OF sorted_entries [of d], of k v]
  by (simp add: std_map_size.rep_eq std_map_subscript_assign.rep_eq lookup_def map_of_eq_None_iff)

lemma lookup_erase_find:
  "lookup (std_map_erase d (std_map_find d k)) = (lookup d)(k := None)"
  using map_of_erase_find_raw [OF sorted_entries [of d], of k]
  by (simp add: lookup_def std_map_erase.rep_eq std_map_find.rep_eq)

lemma size_erase:
  "it < std_map_size d \<Longrightarrow> Suc (std_map_size (std_map_erase d it)) = std_map_size d"
  by (simp add: std_map_size.rep_eq std_map_erase.rep_eq length_erase_raw)

lemma size_empty: "std_map_size std_map_empty = 0"
  by (simp add: std_map_size.rep_eq std_map_empty.rep_eq)

lemma entries_lookup: "(k, v) \<in> set (entries d) \<longleftrightarrow> lookup d k = Some v"
  unfolding lookup_def using distinct_entries [of d] by simp

lemmas std_map_rep =
  std_map_empty.rep_eq std_map_size.rep_eq std_map_find.rep_eq std_map_erase.rep_eq
  std_map_subscript_assign.rep_eq std_map_assign_second.rep_eq
  std_map_begin_def std_map_end_def std_map_clear_def std_map_deref_def

lemma std_map_eq_entries: "a = b \<longleftrightarrow> entries a = entries b"
  by (simp add: entries_inject)

lemma entries_assign_second:
  "it < std_map_size d \<Longrightarrow>
   entries (std_map_assign_second d it v) = (entries d)[it := (fst (entries d ! it), v)]"
  by (simp add: std_map_assign_second.rep_eq std_map_size.rep_eq assign_second_raw_def)

lemma size_assign_second: "std_map_size (std_map_assign_second d it v) = std_map_size d"
  by (simp add: std_map_assign_second.rep_eq std_map_size.rep_eq assign_second_raw_def)

section \<open>The index chain and the cell operations\<close>

lemma index_chain_terminal: "index_chain (Inr t) is = Some (Inr t') \<Longrightarrow> is = [] \<and> t' = t"
  by (cases "is") simp_all

lemma index_chain_view:
  "index_chain (Inl p) is = Some (Inr t) \<Longrightarrow> t = Index_matrix_0 (index_view p @ is)"
proof (induction "is" arbitrary: p)
  case Nil
  then show ?case by simp
next
  case (Cons i "is")
  show ?case
  proof (cases "num p - 1 = 0")
    case True
    then have "index_chain (Inr (Index_matrix_0 (index_view p @ [i]))) is = Some (Inr t)"
      using Cons.prems by (simp add: index_subscript_def next_index_def)
    then show ?thesis using index_chain_terminal by fastforce
  next
    case False
    then have "index_chain (Inl (Index_matrix (num p - 1) (index_view p @ [i]))) is = Some (Inr t)"
      using Cons.prems by (simp add: index_subscript_def next_index_def)
    then show ?thesis using Cons.IH by fastforce
  qed
qed

lemma unat_minus_one_word: "n \<noteq> 0 \<Longrightarrow> unat (n - 1) = unat n - 1" for n :: size_t
  by (simp add: unat_minus_one)

lemma index_chain_length:
  "index_chain (Inl p) is = Some (Inr t) \<Longrightarrow> num p \<noteq> 0 \<Longrightarrow> length is = unat (num p)"
proof (induction "is" arbitrary: p)
  case Nil
  then show ?case by simp
next
  case (Cons i "is")
  have pos: "unat (num p) \<noteq> 0"
    using Cons.prems(2) by (simp add: unat_eq_0)
  show ?case
  proof (cases "num p - 1 = 0")
    case True
    then have "index_chain (Inr (Index_matrix_0 (index_view p @ [i]))) is = Some (Inr t)"
      using Cons.prems by (simp add: index_subscript_def next_index_def)
    then have "is = []" using index_chain_terminal by blast
    moreover have "unat (num p) = 1"
      using True Cons.prems(2) pos unat_minus_one_word [of "num p"] by simp
    ultimately show ?thesis by simp
  next
    case False
    then have "index_chain (Inl (Index_matrix (num p - 1) (index_view p @ [i]))) is = Some (Inr t)"
      using Cons.prems by (simp add: index_subscript_def next_index_def)
    then have "length is = unat (num p - 1)"
      using Cons.IH False by fastforce
    then show ?thesis
      using pos unat_minus_one_word [OF Cons.prems(2)] by simp
  qed
qed

lemma index_chain_full:
  "num p \<noteq> 0 \<Longrightarrow> length is = unat (num p) \<Longrightarrow>
   index_chain (Inl p) is = Some (Inr (Index_matrix_0 (index_view p @ is)))"
proof (induction "is" arbitrary: p)
  case Nil
  then show ?case by (simp add: unat_eq_0)
next
  case (Cons i "is")
  have len: "length is = unat (num p - 1)"
    using Cons.prems unat_minus_one_word [of "num p"] by simp
  show ?case
  proof (cases "num p - 1 = 0")
    case True
    then have "is = []" using len by simp
    then show ?thesis using True by (simp add: index_subscript_def next_index_def)
  next
    case False
    have "index_chain (Inl (Index_matrix (num p - 1) (index_view p @ [i]))) is
        = Some (Inr (Index_matrix_0 ((index_view p @ [i]) @ is)))"
      using Cons.IH [of "Index_matrix (num p - 1) (index_view p @ [i])"] False len by simp
    then show ?thesis using False by (simp add: index_subscript_def next_index_def)
  qed
qed

lemma cell_terminal: "cell N c = Some t \<Longrightarrow> t = Index_matrix_0 c"
proof (cases c)
  case Nil
  assume "cell N c = Some t"
  then show ?thesis using Nil by (simp add: cell_def)
next
  case (Cons i "is")
  assume c: "cell N c = Some t"
  show ?thesis
  proof (cases "N - 1 = 0")
    case True
    then have "index_chain (Inr (Index_matrix_0 [i])) is = Some (Inr t)"
      using c Cons
      by (auto simp: cell_def matrix_subscript_def next_index_def split: option.splits sum.splits)
    then show ?thesis using index_chain_terminal Cons by fastforce
  next
    case False
    then have "index_chain (Inl (Index_matrix (N - 1) [i])) is = Some (Inr t)"
      using c Cons
      by (auto simp: cell_def matrix_subscript_def next_index_def split: option.splits sum.splits)
    then show ?thesis using index_chain_view Cons by fastforce
  qed
qed

lemma cell_length: "cell N c = Some t \<Longrightarrow> N \<noteq> 0 \<Longrightarrow> length c = unat N"
proof (cases c)
  case Nil
  assume "cell N c = Some t"
  then show ?thesis using Nil by (simp add: cell_def)
next
  case (Cons i "is")
  assume c: "cell N c = Some t" and N: "N \<noteq> 0"
  have pos: "unat N \<noteq> 0" using N by (simp add: unat_eq_0)
  show ?thesis
  proof (cases "N - 1 = 0")
    case True
    then have "index_chain (Inr (Index_matrix_0 [i])) is = Some (Inr t)"
      using c Cons
      by (auto simp: cell_def matrix_subscript_def next_index_def split: option.splits sum.splits)
    then have "is = []" using index_chain_terminal by blast
    moreover have "unat N = 1"
      using True N pos unat_minus_one_word [of N] by simp
    ultimately show ?thesis using Cons by simp
  next
    case False
    then have "index_chain (Inl (Index_matrix (N - 1) [i])) is = Some (Inr t)"
      using c Cons
      by (auto simp: cell_def matrix_subscript_def next_index_def split: option.splits sum.splits)
    then have "length is = unat (N - 1)"
      using index_chain_length False by fastforce
    then show ?thesis
      using pos unat_minus_one_word [OF N] Cons by simp
  qed
qed

lemma cell_full: "N \<noteq> 0 \<Longrightarrow> length c = unat N \<Longrightarrow> cell N c = Some (Index_matrix_0 c)"
proof (cases c)
  case Nil
  assume "N \<noteq> 0" "length c = unat N"
  then show ?thesis using Nil by (simp add: unat_eq_0)
next
  case (Cons i "is")
  assume N: "N \<noteq> 0" and l: "length c = unat N"
  have len: "length is = unat (N - 1)"
    using l Cons unat_minus_one_word [OF N] by simp
  show ?thesis
  proof (cases "N - 1 = 0")
    case True
    then have "is = []" using len by simp
    then show ?thesis using True Cons
      by (simp add: cell_def matrix_subscript_def next_index_def)
  next
    case False
    have "index_chain (Inl (Index_matrix (N - 1) [i])) is = Some (Inr (Index_matrix_0 ([i] @ is)))"
      using index_chain_full [of "Index_matrix (N - 1) [i]" "is"] False len by simp
    then show ?thesis using False Cons
      by (simp add: cell_def matrix_subscript_def next_index_def)
  qed
qed

lemma lookup_index_assign:
  "lookup (index_assign dv (Index_matrix_0 c) v d) =
     (if v \<noteq> dv then (lookup d)(c \<mapsto> v) else (lookup d)(c := None))"
proof (cases "v \<noteq> dv")
  case True
  then show ?thesis by (simp add: lookup_subscript_assign)
next
  case False
  show ?thesis
  proof (cases "std_map_find d c = std_map_end d")
    case True
    then have "lookup d c = None" by (simp add: find_end_iff)
    then have "(lookup d)(c := None) = lookup d" by (rule fun_upd_idem)
    then show ?thesis using False True by simp
  next
    case absent: False
    then show ?thesis using False by (simp add: lookup_erase_find)
  qed
qed

lemma index_value_lookup:
  "index_value dv (Index_matrix_0 c) d = (case lookup d c of None \<Rightarrow> dv | Some v \<Rightarrow> v)"
proof (cases "std_map_find d c = std_map_end d")
  case True
  then have "lookup d c = None" by (simp add: find_end_iff)
  then show ?thesis using True by simp
next
  case False
  then obtain v where v: "lookup d c = Some v"
    using find_end_iff [of d c] by auto
  then show ?thesis using False deref_find [OF False] by simp
qed

lemma size_index_assign_non_default:
  "v \<noteq> dv \<Longrightarrow>
   std_map_size (index_assign dv (Index_matrix_0 c) v d) =
     (if std_map_find d c \<noteq> std_map_end d then std_map_size d else Suc (std_map_size d))"
  by (simp add: size_subscript_assign find_end_iff)

lemma size_index_assign_default:
  "std_map_find d c \<noteq> std_map_end d \<Longrightarrow>
   Suc (std_map_size (index_assign dv (Index_matrix_0 c) dv d)) = std_map_size d"
  by (simp add: size_erase find_less_size)

lemma index_assign_default_absent:
  "std_map_find d c = std_map_end d \<Longrightarrow> index_assign dv (Index_matrix_0 c) dv d = d"
  by simp

declare index_assign.simps [simp del] index_value.simps [simp del]

lemma assign_cell_full:
  "N \<noteq> 0 \<Longrightarrow> length c = unat N \<Longrightarrow>
   assign_cell dv N m c v = Some (m\<lparr>data := index_assign dv (Index_matrix_0 c) v (data m)\<rparr>)"
  by (simp add: assign_cell_def cell_full)

lemma read_cell_full:
  "N \<noteq> 0 \<Longrightarrow> length c = unat N \<Longrightarrow>
   read_cell dv N m c = Some (index_value dv (Index_matrix_0 c) (data m), m)"
  by (simp add: read_cell_def cell_full)

lemma explicit_lookup: "explicit m c \<longleftrightarrow> lookup (data m) c \<noteq> None"
  by (simp add: explicit_def find_end_iff)

lemma lookup_assign_cell:
  assumes "assign_cell dv N m c v = Some m'"
  shows "lookup (data m') = (if v \<noteq> dv then (lookup (data m))(c \<mapsto> v) else (lookup (data m))(c := None))"
proof -
  obtain t where t: "cell N c = Some t"
    and m': "m' = m\<lparr>data := index_assign dv t v (data m)\<rparr>"
    using assms by (auto simp: assign_cell_def split: option.splits)
  have "t = Index_matrix_0 c" using t by (rule cell_terminal)
  then show ?thesis using m' by (simp add: lookup_index_assign)
qed

lemma lookup_assign_cells_other:
  "assign_cells dv N m ws = Some m' \<Longrightarrow> c \<notin> fst ` set ws \<Longrightarrow>
   lookup (data m') c = lookup (data m) c"
proof (induction ws arbitrary: m)
  case Nil
  then show ?case by simp
next
  case (Cons w ws)
  from Cons.prems(1) obtain m1 where m1: "assign_cell dv N m (fst w) (snd w) = Some m1"
    and rest: "assign_cells dv N m1 ws = Some m'"
    by (auto split: option.splits)
  have ne: "fst w \<noteq> c" and notin: "c \<notin> fst ` set ws"
    using Cons.prems(2) by auto
  have "lookup (data m') c = lookup (data m1) c"
    using Cons.IH [OF rest notin] .
  also have "\<dots> = lookup (data m) c"
    using ne by (simp add: lookup_assign_cell [OF m1])
  finally show ?case .
qed

lemma index_assign_commute:
  "c1 \<noteq> c2 \<Longrightarrow>
   index_assign dv (Index_matrix_0 c1) v1 (index_assign dv (Index_matrix_0 c2) v2 d)
     = index_assign dv (Index_matrix_0 c2) v2 (index_assign dv (Index_matrix_0 c1) v1 d)"
  by (rule std_map_eqI) (auto simp: lookup_index_assign fun_eq_iff)

lemma assign_cells_fold:
  "assign_cells dv N m ws =
     (if \<forall>w \<in> set ws. cell N (fst w) \<noteq> None
      then Some (m\<lparr>data := fold (\<lambda>w. index_assign dv (Index_matrix_0 (fst w)) (snd w)) ws (data m)\<rparr>)
      else None)"
proof (induction ws arbitrary: m)
  case Nil
  show ?case by simp
next
  case (Cons w ws)
  show ?case
  proof (cases "cell N (fst w)")
    case None
    then show ?thesis by (simp add: assign_cell_def)
  next
    case (Some t)
    then have "t = Index_matrix_0 (fst w)" by (rule cell_terminal)
    then show ?thesis using Some by (simp add: assign_cell_def Cons.IH)
  qed
qed

lemma assign_cells_permute:
  assumes "mset ws' = mset ws" and "distinct (map fst ws)"
  shows "assign_cells dv N m ws' = assign_cells dv N m ws"
proof -
  let ?f = "\<lambda>w. index_assign dv (Index_matrix_0 (fst w)) (snd w)"
  have "?f x \<circ> ?f y = ?f y \<circ> ?f x" if "x \<in> set ws" and "y \<in> set ws" for x y
  proof (cases "x = y")
    case True
    then show ?thesis by simp
  next
    case False
    then have "fst x \<noteq> fst y"
      using that assms(2) by (metis eq_key_imp_eq_value prod.collapse)
    then show ?thesis
      by (auto simp: fun_eq_iff index_assign_commute)
  qed
  then have "fold ?f ws = fold ?f ws'"
    using assms(1) by (intro fold_multiset_equiv) simp_all
  moreover have "set ws' = set ws"
    using assms(1) by (rule mset_eq_setD)
  ultimately show ?thesis
    by (simp add: assign_cells_fold)
qed

section \<open>Iterators and enumeration\<close>

lemma const_enumerate_from_drop:
  "it \<le> std_map_size (data m) \<Longrightarrow>
   const_enumerate_from m (Const_iterator_matrix it) out =
     Some (out @ map (\<lambda>e. tuple_cat (fst e) (snd e)) (drop it (entries (data m))))"
proof (induction "std_map_size (data m) - it" arbitrary: it out)
  case 0
  then have "it = std_map_size (data m)" by simp
  then show ?case
    by (subst const_enumerate_from.simps)
       (simp add: const_iterator_neq_def cend_def std_map_end_def std_map_size.rep_eq)
next
  case (Suc n)
  then have lt: "it < std_map_size (data m)" by simp
  then have step: "drop it (entries (data m)) = entries (data m) ! it # drop (Suc it) (entries (data m))"
    by (simp add: std_map_size.rep_eq Cons_nth_drop_Suc)
  have "const_enumerate_from m (Const_iterator_matrix (Suc it)) (out @ [const_iterator_deref m (Const_iterator_matrix it)])
      = Some ((out @ [const_iterator_deref m (Const_iterator_matrix it)])
          @ map (\<lambda>e. tuple_cat (fst e) (snd e)) (drop (Suc it) (entries (data m))))"
    using Suc.hyps(2) lt by (intro Suc.hyps(1)) simp_all
  then show ?case
    using lt
    by (subst const_enumerate_from.simps)
       (simp add: const_iterator_neq_def cend_def std_map_end_def step std_map_deref_def)
qed

lemma const_enumeration_entries:
  "const_enumeration m = Some (map (\<lambda>e. tuple_cat (fst e) (snd e)) (entries (data m)))"
  using const_enumerate_from_drop [of 0 m "[]"]
  by (simp add: const_enumeration_def cbegin_def std_map_begin_def)

lemma enumerate_from_drop:
  "it \<le> std_map_size (data m) \<Longrightarrow>
   enumerate_from m (Iterator_matrix it) out =
     Some (out @ map (\<lambda>e. tuple_cat (fst e) (snd e)) (drop it (entries (data m))))"
proof (induction "std_map_size (data m) - it" arbitrary: it out)
  case 0
  then have "it = std_map_size (data m)" by simp
  then show ?case
    by (subst enumerate_from.simps)
       (simp add: iterator_neq_def end_m_def std_map_end_def std_map_size.rep_eq)
next
  case (Suc n)
  then have lt: "it < std_map_size (data m)" by simp
  then have step: "drop it (entries (data m)) = entries (data m) ! it # drop (Suc it) (entries (data m))"
    by (simp add: std_map_size.rep_eq Cons_nth_drop_Suc)
  have "enumerate_from m (Iterator_matrix (Suc it)) (out @ [iterator_deref m (Iterator_matrix it)])
      = Some ((out @ [iterator_deref m (Iterator_matrix it)])
          @ map (\<lambda>e. tuple_cat (fst e) (snd e)) (drop (Suc it) (entries (data m))))"
    using Suc.hyps(2) lt by (intro Suc.hyps(1)) simp_all
  then show ?case
    using lt
    by (subst enumerate_from.simps)
       (simp add: iterator_neq_def end_m_def std_map_end_def step std_map_deref_def)
qed

lemma enumeration_entries:
  "enumeration m = Some (map (\<lambda>e. tuple_cat (fst e) (snd e)) (entries (data m)))"
  using enumerate_from_drop [of 0 m "[]"]
  by (simp add: enumeration_def begin_m_def std_map_begin_def)

lemma butlast_tuple_cat: "butlast (tuple_cat k v) = map Inl k"
  by (simp add: tuple_cat_def butlast_append)

lemma filter_key_entries:
  "distinct (map fst xs) \<Longrightarrow> map_of xs k = Some v \<Longrightarrow> filter (\<lambda>e. fst e = k) xs = [(k, v)]"
proof (induction xs)
  case Nil
  then show ?case by simp
next
  case (Cons e xs)
  show ?case
  proof (cases "fst e = k")
    case True
    then have "k \<notin> fst ` set xs" using Cons.prems(1) by auto
    then have "filter (\<lambda>e. fst e = k) xs = []"
      by (auto simp: filter_empty_conv)
    moreover have "e = (k, v)" using True Cons.prems(2) by (cases e) simp
    ultimately show ?thesis by simp
  next
    case False
    then show ?thesis using Cons by (cases e) simp
  qed
qed

lemma enumeration_at:
  assumes "lookup (data m) c = Some v"
  shows "filter (\<lambda>e. butlast e = map Inl c)
           (map (\<lambda>e. tuple_cat (fst e) (snd e)) (entries (data m))) = [tuple_cat c v]"
proof -
  have inj: "map Inl k = map Inl c \<longleftrightarrow> k = c" for k :: index_t
    by (simp add: inj_map_eq_map)
  have "filter (\<lambda>e. butlast e = map Inl c) (map (\<lambda>e. tuple_cat (fst e) (snd e)) (entries (data m)))
      = map (\<lambda>e. tuple_cat (fst e) (snd e)) (filter (\<lambda>e. fst e = c) (entries (data m)))"
    by (simp add: filter_map comp_def butlast_tuple_cat inj)
  also have "filter (\<lambda>e. fst e = c) (entries (data m)) = [(c, v)]"
    using assms filter_key_entries [OF distinct_entries] by (simp add: lookup_def)
  finally show ?thesis by simp
qed

lemma iterator_incr_funpow: "(iterator_incr ^^ n) (begin_m m) = Iterator_matrix n"
  by (induction n) (simp_all add: begin_m_def std_map_begin_def)

lemma index_less_tuple_less: "a < b \<longleftrightarrow> tuple_less a b"
  by (induction a b rule: tuple_less.induct) auto

lemma tuple_less_first_difference:
  "length a = length b \<Longrightarrow>
   tuple_less a b \<longleftrightarrow> (\<exists>i < length a. take i a = take i b \<and> a ! i < b ! i)"
proof (induction a b rule: list_induct2)
  case Nil
  show ?case by simp
next
  case (Cons x xs y ys)
  have "(\<exists>i < length (x # xs). take i (x # xs) = take i (y # ys) \<and> (x # xs) ! i < (y # ys) ! i)
      \<longleftrightarrow> x < y \<or> (\<exists>j < length xs. x = y \<and> take j xs = take j ys \<and> xs ! j < ys ! j)"
    by (auto simp: Ex_less_Suc2)
  also have "\<dots> \<longleftrightarrow> x < y \<or> (x = y \<and> tuple_less xs ys)"
    using Cons.IH by blast
  also have "\<dots> \<longleftrightarrow> tuple_less (x # xs) (y # ys)"
    by auto
  finally show ?case by simp
qed

lemma sorted_tuple_less: "sorted_wrt tuple_less (map fst (entries (d :: 'v contener_t)))"
proof -
  have "(<) = tuple_less"
    by (intro ext) (rule index_less_tuple_less)
  then show ?thesis using sorted_entries [of d] by simp
qed

lemma cells_explicit_value:
  "(c, v) \<in> set (entries (data m)) \<longleftrightarrow>
     explicit m c \<and> index_value dv (Index_matrix_0 c) (data m) = v"
  by (cases "lookup (data m) c") (auto simp: entries_lookup explicit_lookup index_value_lookup)

section \<open>Programs over several matrices\<close>

lemma elided_lookup: "elided dv m \<longleftrightarrow> (\<forall>c. lookup (data m) c \<noteq> Some dv)"
proof
  assume e: "elided dv m"
  show "\<forall>c. lookup (data m) c \<noteq> Some dv"
  proof
    fix c
    show "lookup (data m) c \<noteq> Some dv"
    proof
      assume "lookup (data m) c = Some dv"
      then have "(c, dv) \<in> set (entries (data m))"
        by (simp add: entries_lookup)
      then show False using e by (auto simp: elided_def)
    qed
  qed
next
  assume l: "\<forall>c. lookup (data m) c \<noteq> Some dv"
  show "elided dv m"
    unfolding elided_def
  proof
    fix e
    assume "e \<in> set (entries (data m))"
    then have "(fst e, snd e) \<in> set (entries (data m))" by simp
    then have "lookup (data m) (fst e) = Some (snd e)"
      by (simp only: entries_lookup)
    then show "snd e \<noteq> dv" using l by auto
  qed
qed

lemma dimensioned_lookup:
  "dimensioned N m \<longleftrightarrow> (\<forall>c. lookup (data m) c \<noteq> None \<longrightarrow> length c = unat N)"
proof
  assume d: "dimensioned N m"
  show "\<forall>c. lookup (data m) c \<noteq> None \<longrightarrow> length c = unat N"
  proof (intro allI impI)
    fix c
    assume "lookup (data m) c \<noteq> None"
    then obtain v where "lookup (data m) c = Some v" by auto
    then have "(c, v) \<in> set (entries (data m))"
      by (simp add: entries_lookup)
    then show "length c = unat N" using d by (auto simp: dimensioned_def)
  qed
next
  assume l: "\<forall>c. lookup (data m) c \<noteq> None \<longrightarrow> length c = unat N"
  show "dimensioned N m"
    unfolding dimensioned_def
  proof
    fix e
    assume "e \<in> set (entries (data m))"
    then have "(fst e, snd e) \<in> set (entries (data m))" by simp
    then have "lookup (data m) (fst e) = Some (snd e)"
      by (simp only: entries_lookup)
    then show "length (fst e) = unat N" using l by auto
  qed
qed

lemma exec_frame: "exec std dv N st s = Some s' \<Longrightarrow> z \<notin> writes st \<Longrightarrow> s' z = s z"
  by (cases st) (auto split: option.splits prod.splits if_splits)

lemma run_frame:
  "run std dv N sts s = Some s' \<Longrightarrow> \<forall>st \<in> set sts. z \<notin> writes st \<Longrightarrow> s' z = s z"
proof (induction sts arbitrary: s)
  case Nil
  then show ?case by simp
next
  case (Cons st sts)
  from Cons.prems(1) obtain s1 where s1: "exec std dv N st s = Some s1"
    and rest: "run std dv N sts s1 = Some s'"
    by (auto split: option.splits)
  have "s' z = s1 z" using Cons.IH [OF rest] Cons.prems(2) by simp
  also have "s1 z = s z" using exec_frame [OF s1] Cons.prems(2) by simp
  finally show ?case .
qed

lemma elided_default: "elided dv sparse_matrix_default"
  by (simp add: elided_lookup sparse_matrix_default_def lookup_empty)

lemma elided_empty: "elided dv (m\<lparr>data := std_map_empty\<rparr>)"
  by (simp add: elided_lookup lookup_empty)

lemma elided_clear: "elided dv (clear m)"
  by (simp add: clear_def std_map_clear_def elided_empty)

lemma elided_copy_assign:
  "copy_assign std this other = Some this' \<Longrightarrow> elided dv this \<Longrightarrow> elided dv other \<Longrightarrow>
   elided dv this'"
  by (auto simp: copy_assign_def elided_lookup split: if_splits)

lemma elided_assign_cell:
  assumes "elided dv m" and "assign_cell dv N m c v = Some m'"
  shows "elided dv m'"
  using assms(1) unfolding elided_lookup lookup_assign_cell [OF assms(2)] by auto

lemma elided_iterator_assign:
  assumes "elided dv m" and "v \<noteq> dv" and "n < size_m m"
  shows "elided dv (iterator_assign_value m ((iterator_incr ^^ n) (begin_m m)) v)"
proof -
  have lt: "n < std_map_size (data m)"
    using assms(3) by (simp add: size_m_def)
  have "set ((entries (data m))[n := (fst (entries (data m) ! n), v)])
      \<subseteq> insert (fst (entries (data m) ! n), v) (set (entries (data m)))"
    by (rule set_update_subset_insert)
  then show ?thesis
    using assms(1,2)
    by (auto simp: elided_def iterator_incr_funpow entries_assign_second [OF lt])
qed

lemma dimensioned_iterator_assign:
  assumes "dimensioned N m" and "n < size_m m"
  shows "dimensioned N (iterator_assign_value m ((iterator_incr ^^ n) (begin_m m)) v)"
  unfolding dimensioned_def
proof
  let ?m' = "iterator_assign_value m ((iterator_incr ^^ n) (begin_m m)) v"
  fix e
  assume e: "e \<in> set (entries (data ?m'))"
  have lt: "n < std_map_size (data m)" and len: "n < length (entries (data m))"
    using assms(2) by (simp_all add: size_m_def std_map_size.rep_eq)
  have ent: "entries (data ?m') = (entries (data m))[n := (fst (entries (data m) ! n), v)]"
    by (simp add: iterator_incr_funpow entries_assign_second [OF lt])
  have "e \<in> insert (fst (entries (data m) ! n), v) (set (entries (data m)))"
    using e set_update_subset_insert [of "entries (data m)" n] unfolding ent by blast
  then consider "e = (fst (entries (data m) ! n), v)" | "e \<in> set (entries (data m))"
    by blast
  then show "length (fst e) = unat N"
  proof cases
    case 1
    have "entries (data m) ! n \<in> set (entries (data m))"
      using len by simp
    then have "length (fst (entries (data m) ! n)) = unat N"
      using assms(1) by (simp add: dimensioned_def)
    then show ?thesis using 1 by simp
  next
    case 2
    then show ?thesis using assms(1) by (simp add: dimensioned_def)
  qed
qed

lemma exec_elided:
  assumes "exec std dv N st s = Some s'" and "\<forall>x m. s x = Some m \<longrightarrow> elided dv m"
    and "\<not> default_through_iterator dv st"
  shows "\<forall>x m. s' x = Some m \<longrightarrow> elided dv m"
proof (cases st)
  case (Iterator_assign x n v)
  then show ?thesis using assms
    by (auto split: option.splits if_splits simp: elided_iterator_assign)
next
  case (Default_construct x)
  then show ?thesis using assms by (auto split: option.splits if_splits simp: elided_default)
next
  case (Copy_construct x y)
  then show ?thesis using assms
    by (auto split: option.splits if_splits simp: copy_ctor_def elided_lookup)
next
  case (Move_construct x y)
  then show ?thesis using assms
    by (auto split: option.splits if_splits simp: move_ctor_def elided_lookup lookup_empty)
next
  case (Copy_assign x y)
  from assms(1) obtain this other this' where t: "s x = Some this" and o: "s y = Some other"
    and c: "copy_assign std this other = Some this'" and s': "s' = s(x \<mapsto> this')"
    unfolding Copy_assign by (auto split: option.splits)
  have "elided dv this" and "elided dv other"
    using assms(2) t o by simp_all
  then have "elided dv this'"
    by (rule elided_copy_assign [OF c])
  then show ?thesis
    using assms(2) by (simp add: s')
next
  case (Move_assign x y)
  then show ?thesis using assms
    by (auto split: option.splits if_splits simp: move_assign_def elided_lookup lookup_empty)
next
  case (Assign x c v)
  then show ?thesis using assms
    by (auto split: option.splits if_splits dest: elided_assign_cell [rotated])
next
  case (Clear x)
  then show ?thesis using assms by (auto split: option.splits if_splits simp: elided_clear)
qed

lemma run_elided:
  "run std dv N sts s = Some s' \<Longrightarrow> \<forall>x m. s x = Some m \<longrightarrow> elided dv m \<Longrightarrow>
   \<forall>st \<in> set sts. \<not> default_through_iterator dv st \<Longrightarrow>
   \<forall>x m. s' x = Some m \<longrightarrow> elided dv m"
proof (induction sts arbitrary: s)
  case Nil
  then show ?case by simp
next
  case (Cons st sts)
  from Cons.prems(1) obtain s1 where s1: "exec std dv N st s = Some s1"
    and rest: "run std dv N sts s1 = Some s'"
    by (auto split: option.splits)
  have "\<forall>x m. s1 x = Some m \<longrightarrow> elided dv m"
    using s1 Cons.prems(2) by (rule exec_elided) (use Cons.prems(3) in simp)
  then show ?case by (rule Cons.IH [OF rest]) (use Cons.prems(3) in simp)
qed

lemma data_copy_assign: "copy_assign std this other = Some this' \<Longrightarrow> data this' = data other"
  by (auto simp: copy_assign_def equal_m_def entries_inject split: if_splits)

lemma copy_assign_ill_formed: "\<not> rewritten_candidates std \<Longrightarrow> copy_assign std this other = None"
  by (simp add: copy_assign_def)

lemma copy_assign_rewritten:
  "rewritten_candidates std \<Longrightarrow>
   copy_assign std this other = Some (if equal_m this other then this else this\<lparr>data := data other\<rparr>)"
  by (simp add: copy_assign_def)

lemma copy_assign_self: "rewritten_candidates std \<Longrightarrow> copy_assign std m m = Some m"
  by (simp add: copy_assign_def equal_m_def)

lemma exec_copy:
  assumes "st = Copy_construct x y \<or> st = Copy_assign x y" and "x \<noteq> y"
    and "exec std dv N st s = Some s1"
  shows "\<exists>original copy. s y = Some original \<and> s1 y = Some original \<and> s1 x = Some copy
           \<and> data copy = data original"
  using assms
  by (auto split: option.splits if_splits
      simp: copy_ctor_def copy_assign_def equal_m_def entries_inject)

lemma exec_copy_assign_ill_formed:
  "\<not> rewritten_candidates std \<Longrightarrow> exec std dv N (Copy_assign x y) s = None"
  by (simp add: copy_assign_ill_formed split: option.splits)

lemma exec_copy_assign_rewritten:
  assumes "rewritten_candidates std" and "s x = Some this" and "s y = Some other"
  shows "\<exists>s1 this'. exec std dv N (Copy_assign x y) s = Some s1
           \<and> s1 x = Some this'
           \<and> entries (data this') = entries (data other)
           \<and> (\<forall>z. z \<noteq> x \<longrightarrow> s1 z = s z)
           \<and> (x = y \<longrightarrow> s1 = s)"
proof -
  obtain this' where c: "copy_assign std this other = Some this'"
    using assms(1) by (simp add: copy_assign_rewritten)
  define s1 where "s1 = s(x \<mapsto> this')"
  have e: "exec std dv N (Copy_assign x y) s = Some s1"
    using assms(2,3) c by (simp add: s1_def)
  have x: "s1 x = Some this'"
    by (simp add: s1_def)
  have d: "entries (data this') = entries (data other)"
    using data_copy_assign [OF c] by simp
  have others: "\<forall>z. z \<noteq> x \<longrightarrow> s1 z = s z"
    by (simp add: s1_def)
  have self: "x = y \<longrightarrow> s1 = s"
  proof
    assume "x = y"
    then have "other = this" using assms(2,3) by simp
    then have "this' = this" using c copy_assign_self [OF assms(1), of this] by simp
    then show "s1 = s" using assms(2) by (simp add: s1_def fun_upd_idem)
  qed
  show ?thesis using e x d others self by blast
qed

lemma dimensioned_assign_cell:
  assumes "dimensioned N m" and "assign_cell dv N m c v = Some m'" and "N \<noteq> 0"
  shows "dimensioned N m'"
proof -
  obtain t where "cell N c = Some t"
    using assms(2) by (auto simp: assign_cell_def split: option.splits)
  then have "length c = unat N"
    using assms(3) by (rule cell_length)
  then show ?thesis
    using assms(1) unfolding dimensioned_lookup lookup_assign_cell [OF assms(2)]
    by (auto split: if_splits)
qed

lemma exec_dimensioned:
  assumes "exec std dv N st s = Some s'" and "\<forall>x m. s x = Some m \<longrightarrow> dimensioned N m" and "N \<noteq> 0"
  shows "\<forall>x m. s' x = Some m \<longrightarrow> dimensioned N m"
proof (cases st)
  case (Iterator_assign x n v)
  then show ?thesis using assms
    by (auto split: option.splits if_splits simp: dimensioned_iterator_assign)
next
  case (Default_construct x)
  then show ?thesis using assms
    by (auto split: option.splits if_splits simp: dimensioned_lookup sparse_matrix_default_def lookup_empty)
next
  case (Copy_construct x y)
  then show ?thesis using assms
    by (auto split: option.splits if_splits simp: copy_ctor_def dimensioned_lookup)
next
  case (Move_construct x y)
  then show ?thesis using assms
    by (auto split: option.splits if_splits simp: move_ctor_def dimensioned_lookup lookup_empty)
next
  case (Copy_assign x y)
  then show ?thesis using assms
    by (auto split: option.splits if_splits simp: dimensioned_lookup dest: data_copy_assign)
next
  case (Move_assign x y)
  then show ?thesis using assms
    by (auto split: option.splits if_splits simp: move_assign_def dimensioned_lookup lookup_empty)
next
  case (Assign x c v)
  then show ?thesis using assms
    by (auto split: option.splits if_splits dest: dimensioned_assign_cell [rotated])
next
  case (Clear x)
  then show ?thesis using assms
    by (auto split: option.splits if_splits simp: clear_def std_map_clear_def dimensioned_lookup lookup_empty)
qed

lemma run_dimensioned:
  "run std dv N sts s = Some s' \<Longrightarrow> \<forall>x m. s x = Some m \<longrightarrow> dimensioned N m \<Longrightarrow> N \<noteq> 0 \<Longrightarrow>
   \<forall>x m. s' x = Some m \<longrightarrow> dimensioned N m"
proof (induction sts arbitrary: s)
  case Nil
  then show ?case by simp
next
  case (Cons st sts)
  from Cons.prems(1) obtain s1 where s1: "exec std dv N st s = Some s1"
    and rest: "run std dv N sts s1 = Some s'"
    by (auto split: option.splits)
  have "\<forall>x m. s1 x = Some m \<longrightarrow> dimensioned N m"
    using s1 Cons.prems(2,3) by (rule exec_dimensioned)
  then show ?case using Cons.prems(3) by (rule Cons.IH [OF rest])
qed

section \<open>The two loops of \<^verbatim>\<open>main\<close>\<close>

lemma main_writes_entries:
  "\<exists>matrix. main_writes = Some matrix \<and> entries (data matrix) =
    [([0, 9], 9), ([1, 1], 1), ([1, 8], 8), ([2, 2], 2), ([2, 7], 7), ([3, 3], 3), ([3, 6], 6),
     ([4, 4], 4), ([4, 5], 5), ([5, 4], 4), ([5, 5], 5), ([6, 3], 3), ([6, 6], 6), ([7, 2], 2),
     ([7, 7], 7), ([8, 1], 1), ([8, 8], 8), ([9, 9], 9)]"
  by (simp add: main_writes_def num_elem_def assign_cell_full index_assign.simps
      sparse_matrix_default_def std_map_rep)

chapter \<open>The claims\<close>

text \<open>
  C1. For a coordinate \<open>c\<close> of the matrix (as many components as \<^verbatim>\<open>matrix_size\<close>) and
  a value \<open>v\<close> other than the default value, the statement \<^verbatim>\<open>matrix[c1]...[cN] = v\<close> is
  well-formed, and after it: reading \<open>c\<close> gives \<open>v\<close> (and leaves the matrix as it is); a
  full enumeration has exactly one element with the coordinate \<open>c\<close>, the tuple of \<open>c\<close>
  and \<open>v\<close>; and \<^verbatim>\<open>size()\<close> is one more than before, unless \<open>c\<close> already held an explicit
  entry, in which case it is unchanged.
\<close>

theorem assign_non_default_value:
  assumes "N \<noteq> 0" and "length c = unat N" and "v \<noteq> dv"
  shows "\<exists>m'. assign_cell dv N m c v = Some m'
          \<and> read_cell dv N m' c = Some (v, m')
          \<and> (\<exists>es. enumeration m' = Some es
                \<and> filter (\<lambda>e. butlast e = map Inl c) es = [tuple_cat c v])
          \<and> size_m m' = (if explicit m c then size_m m else size_m m + 1)"
proof -
  define m' where "m' = m\<lparr>data := index_assign dv (Index_matrix_0 c) v (data m)\<rparr>"
  have a: "assign_cell dv N m c v = Some m'"
    unfolding m'_def using assms(1,2) by (rule assign_cell_full)
  have look: "lookup (data m') c = Some v"
    using assms(3) by (simp add: lookup_assign_cell [OF a])
  have r: "read_cell dv N m' c = Some (v, m')"
    using look by (simp add: read_cell_full [OF assms(1,2)] index_value_lookup)
  have e: "filter (\<lambda>e. butlast e = map Inl c)
             (map (\<lambda>e. tuple_cat (fst e) (snd e)) (entries (data m'))) = [tuple_cat c v]"
    using look by (rule enumeration_at)
  have s: "size_m m' = (if explicit m c then size_m m else size_m m + 1)"
    using assms(3) by (simp add: m'_def size_m_def explicit_def size_index_assign_non_default)
  show ?thesis
    using a r e s enumeration_entries [of m'] by blast
qed

theorem assign_non_default_value_witness:
  "(2 :: size_t) \<noteq> 0 \<and> length [1, 2 :: size_t] = unat (2 :: size_t) \<and> (5 :: int) \<noteq> 0
   \<and> \<not> explicit (sparse_matrix_default :: int sparse_matrix) [1, 2]
   \<and> size_m (sparse_matrix_default :: int sparse_matrix) = 0
   \<and> (\<exists>m'. assign_cell 0 2 sparse_matrix_default [1, 2] (5 :: int) = Some m'
         \<and> read_cell 0 2 m' [1, 2] = Some (5, m')
         \<and> (\<exists>es. enumeration m' = Some es
               \<and> filter (\<lambda>e. butlast e = map Inl [1, 2]) es = [tuple_cat [1, 2] 5])
         \<and> size_m m' = 1)"
proof -
  have h1: "(2 :: size_t) \<noteq> 0" by simp
  have h2: "length [1, 2 :: size_t] = unat (2 :: size_t)" by simp
  have h3: "(5 :: int) \<noteq> 0" by simp
  have ne: "\<not> explicit (sparse_matrix_default :: int sparse_matrix) [1, 2]"
    by (simp add: explicit_lookup sparse_matrix_default_def lookup_empty)
  have sz: "size_m (sparse_matrix_default :: int sparse_matrix) = 0"
    by (simp add: size_m_def sparse_matrix_default_def size_empty)
  show ?thesis
    using assign_non_default_value [OF h1 h2 h3, of sparse_matrix_default] h1 h2 ne sz
    by simp
qed

text \<open>
  C2. For a coordinate \<open>c\<close> of the matrix, the statement \<^verbatim>\<open>matrix[c1]...[cN] = default_value\<close>
  is well-formed, and after it \<open>c\<close> holds no explicit entry and reading \<open>c\<close> gives the
  default value. If \<open>c\<close> held an explicit entry before, \<^verbatim>\<open>size()\<close> is one less than
  before; if it held none, the matrix is unchanged, and so is \<^verbatim>\<open>size()\<close>.
\<close>

theorem assign_default_value:
  assumes "N \<noteq> 0" and "length c = unat N"
  shows "\<exists>m'. assign_cell dv N m c dv = Some m'
          \<and> \<not> explicit m' c
          \<and> read_cell dv N m' c = Some (dv, m')
          \<and> (if explicit m c then Suc (size_m m') = size_m m
              else m' = m \<and> size_m m' = size_m m)"
proof -
  define m' where "m' = m\<lparr>data := index_assign dv (Index_matrix_0 c) dv (data m)\<rparr>"
  have a: "assign_cell dv N m c dv = Some m'"
    unfolding m'_def using assms by (rule assign_cell_full)
  have look: "lookup (data m') c = None"
    by (simp add: lookup_assign_cell [OF a])
  then have x: "\<not> explicit m' c"
    by (simp add: explicit_lookup)
  have r: "read_cell dv N m' c = Some (dv, m')"
    using look by (simp add: read_cell_full [OF assms] index_value_lookup)
  have s: "if explicit m c then Suc (size_m m') = size_m m else m' = m \<and> size_m m' = size_m m"
  proof (cases "explicit m c")
    case True
    then have "std_map_find (data m) c \<noteq> std_map_end (data m)"
      by (simp add: explicit_def)
    then have "Suc (size_m m') = size_m m"
      unfolding m'_def size_m_def by (simp add: size_index_assign_default)
    then show ?thesis using True by simp
  next
    case False
    then have "std_map_find (data m) c = std_map_end (data m)"
      by (simp add: explicit_def)
    then have "m' = m"
      unfolding m'_def by (simp add: index_assign_default_absent)
    then show ?thesis using False by simp
  qed
  show ?thesis using a x r s by blast
qed

theorem assign_default_value_witness:
  "(2 :: size_t) \<noteq> 0 \<and> length [1, 2 :: size_t] = unat (2 :: size_t)
   \<and> explicit \<lparr>data = std_map_subscript_assign std_map_empty [1, 2] (5 :: int)\<rparr> [1, 2]
   \<and> (\<exists>m'. assign_cell 0 2 \<lparr>data = std_map_subscript_assign std_map_empty [1, 2] (5 :: int)\<rparr> [1, 2] 0
           = Some m'
         \<and> \<not> explicit m' [1, 2]
         \<and> read_cell 0 2 m' [1, 2] = Some (0, m')
         \<and> Suc (size_m m') = size_m \<lparr>data = std_map_subscript_assign std_map_empty [1, 2] (5 :: int)\<rparr>)"
proof -
  have h1: "(2 :: size_t) \<noteq> 0" by simp
  have h2: "length [1, 2 :: size_t] = unat (2 :: size_t)" by simp
  have ex: "explicit \<lparr>data = std_map_subscript_assign std_map_empty [1, 2] (5 :: int)\<rparr> [1, 2]"
    by (simp add: explicit_lookup lookup_subscript_assign)
  show ?thesis
    using assign_default_value [OF h1 h2,
        of 0 "\<lparr>data = std_map_subscript_assign std_map_empty [1, 2] (5 :: int)\<rparr>"] h1 h2 ex
    by simp
qed

text \<open>
  C3. For a coordinate \<open>c\<close> of the matrix, the read \<^verbatim>\<open>matrix[c1]...[cN]\<close> is well-formed
  and leaves the matrix as it is. It gives the stored value when the container has an
  entry for \<open>c\<close>, and the default value when it has none. In particular it gives the
  default value in any matrix built from an empty one by assignments to coordinates
  other than \<open>c\<close>.
\<close>

theorem read_stored_or_default:
  assumes "N \<noteq> 0" and "length c = unat N"
  shows "\<exists>r. read_cell dv N m c = Some (r, m)
          \<and> (\<forall>v. (c, v) \<in> set (entries (data m)) \<longrightarrow> r = v)
          \<and> ((\<forall>v. (c, v) \<notin> set (entries (data m))) \<longrightarrow> r = dv)
          \<and> (\<forall>ws. assign_cells dv N sparse_matrix_default ws = Some m \<and> c \<notin> fst ` set ws
                \<longrightarrow> r = dv)"
proof -
  define r where "r = index_value dv (Index_matrix_0 c) (data m)"
  have rd: "read_cell dv N m c = Some (r, m)"
    unfolding r_def using assms by (rule read_cell_full)
  have r: "r = (case lookup (data m) c of None \<Rightarrow> dv | Some v \<Rightarrow> v)"
    unfolding r_def by (rule index_value_lookup)
  have stored: "\<forall>v. (c, v) \<in> set (entries (data m)) \<longrightarrow> r = v"
    by (simp add: entries_lookup r)
  have absent: "(\<forall>v. (c, v) \<notin> set (entries (data m))) \<longrightarrow> r = dv"
    by (cases "lookup (data m) c") (simp_all add: entries_lookup r)
  have fresh: "\<forall>ws. assign_cells dv N sparse_matrix_default ws = Some m \<and> c \<notin> fst ` set ws
      \<longrightarrow> r = dv"
  proof (intro allI impI)
    fix ws
    assume "assign_cells dv N sparse_matrix_default ws = Some m \<and> c \<notin> fst ` set ws"
    then have ws: "assign_cells dv N sparse_matrix_default ws = Some m" and c: "c \<notin> fst ` set ws"
      by simp_all
    have "lookup (data m) c = None"
      unfolding lookup_assign_cells_other [OF ws c]
      by (simp add: sparse_matrix_default_def lookup_empty)
    then show "r = dv" by (simp add: r)
  qed
  show ?thesis using rd stored absent fresh by blast
qed

theorem read_stored_or_default_witness:
  "(2 :: size_t) \<noteq> 0 \<and> length [3, 4 :: size_t] = unat (2 :: size_t)
   \<and> assign_cells 0 2 sparse_matrix_default [([1, 2], 5 :: int)]
       = Some \<lparr>data = std_map_subscript_assign std_map_empty [1, 2] 5\<rparr>
   \<and> read_cell 0 2 \<lparr>data = std_map_subscript_assign std_map_empty [1, 2] (5 :: int)\<rparr> [3, 4]
       = Some (0, \<lparr>data = std_map_subscript_assign std_map_empty [1, 2] 5\<rparr>)"
proof -
  let ?m = "\<lparr>data = std_map_subscript_assign std_map_empty [1, 2 :: size_t] (5 :: int)\<rparr>"
  have h1: "(2 :: size_t) \<noteq> 0" by simp
  have h2: "length [3, 4 :: size_t] = unat (2 :: size_t)" by simp
  have "assign_cell 0 2 sparse_matrix_default [1, 2] (5 :: int) = Some ?m"
    by (simp add: assign_cell_full sparse_matrix_default_def index_assign.simps)
  then have ws: "assign_cells 0 2 sparse_matrix_default [([1, 2], 5 :: int)] = Some ?m"
    by simp
  obtain r where r: "read_cell 0 2 ?m [3, 4] = Some (r, ?m)"
    and fresh: "\<forall>ws. assign_cells 0 2 sparse_matrix_default ws = Some ?m \<and> [3, 4] \<notin> fst ` set ws
          \<longrightarrow> r = 0"
    using read_stored_or_default [OF h1 h2, of 0 ?m] by blast
  have "r = 0"
    using fresh ws by (elim allE [of _ "[([1, 2], 5)]"]) simp
  then show ?thesis using h1 h2 ws r by simp
qed

text \<open>
  C4. In every state that a program reaches from its start by default construction,
  assignments to cells through the index chain, \<^verbatim>\<open>clear()\<close>, copy construction and
  assignment, and move construction and assignment, no entry of any matrix holds the
  default value. The program may also assign through iterators, as long as it never
  assigns the default value through one.
\<close>

theorem no_default_entries:
  assumes "run std dv N sts Map.empty = Some s"
    and "\<forall>st \<in> set sts. \<not> default_through_iterator dv st"
    and "s x = Some m"
    and "(c, v) \<in> set (entries (data m))"
  shows "v \<noteq> dv"
proof -
  have "\<forall>x m. s x = Some m \<longrightarrow> elided dv m"
    using assms(1) _ assms(2) by (rule run_elided) simp
  then have "elided dv m"
    using assms(3) by simp
  then show ?thesis
    using assms(4) by (auto simp: elided_def)
qed

theorem no_default_entries_witness:
  "run Cxx14 (0 :: int) 2
     [Default_construct 0, Assign 0 [1, 2] 5, Assign 0 [3, 4] 7, Assign 0 [1, 2] 0,
      Copy_construct 1 0, Clear 0, Move_construct 2 1] Map.empty
   = Some [0 \<mapsto> \<lparr>data = std_map_empty\<rparr>,
           1 \<mapsto> \<lparr>data = std_map_empty\<rparr>,
           2 \<mapsto> \<lparr>data = std_map_subscript_assign std_map_empty [3, 4] 7\<rparr>]
   \<and> entries (std_map_subscript_assign std_map_empty [3, 4 :: size_t] (7 :: int)) = [([3, 4], 7)]
   \<and> (7 :: int) \<noteq> 0"
proof -
  let ?s = "[0 \<mapsto> \<lparr>data = std_map_empty\<rparr>,
             1 \<mapsto> \<lparr>data = std_map_empty\<rparr>,
             2 \<mapsto> \<lparr>data = std_map_subscript_assign std_map_empty [3, 4 :: size_t] (7 :: int)\<rparr>]"
  have r: "run Cxx14 (0 :: int) 2
     [Default_construct 0, Assign 0 [1, 2] 5, Assign 0 [3, 4] 7, Assign 0 [1, 2] 0,
      Copy_construct 1 0, Clear 0, Move_construct 2 1] Map.empty = Some ?s"
    by (simp add: assign_cell_full sparse_matrix_default_def index_assign.simps clear_def
        copy_ctor_def move_ctor_def std_map_rep std_map_eq_entries fun_eq_iff)
  have e: "entries (std_map_subscript_assign std_map_empty [3, 4 :: size_t] (7 :: int)) = [([3, 4], 7)]"
    by (simp add: std_map_rep)
  have h: "\<forall>st \<in> set [Default_construct 0, Assign 0 [1, 2] 5, Assign 0 [3, 4] 7, Assign 0 [1, 2] 0,
      Copy_construct 1 0, Clear 0, Move_construct 2 1]. \<not> default_through_iterator (0 :: int) st"
    by simp
  have "(7 :: int) \<noteq> 0"
    using no_default_entries [OF r h, of 2
        "\<lparr>data = std_map_subscript_assign std_map_empty [3, 4] 7\<rparr>" "[3, 4]" 7] e
    by simp
  then show ?thesis using r e by simp
qed

text \<open>
  C5. After the two loops of \<^verbatim>\<open>main\<close>, which assign \<^verbatim>\<open>matrix[i][i] = i\<close> and
  \<^verbatim>\<open>matrix[i][9 - i] = 9 - i\<close> for \<open>i\<close> from 0 to 9, \<^verbatim>\<open>size()\<close> is 18, not 20: the assignments
  \<^verbatim>\<open>matrix[0][0] = 0\<close> and \<^verbatim>\<open>matrix[9][0] = 0\<close> assign the default value and store
  nothing. Reading \<^verbatim>\<open>matrix[1][1]\<close> gives 1 and reading \<^verbatim>\<open>matrix[0][9]\<close> gives 9.
\<close>

theorem main_writes_size_18:
  "\<exists>matrix. main_writes = Some matrix
     \<and> size_m matrix = 18
     \<and> read_cell 0 2 matrix [1, 1] = Some (1, matrix)
     \<and> read_cell 0 2 matrix [0, 9] = Some (9, matrix)
     \<and> \<not> explicit matrix [0, 0]
     \<and> \<not> explicit matrix [9, 0]"
proof -
  obtain matrix where m: "main_writes = Some matrix"
    and e: "entries (data matrix) =
      [([0, 9], 9), ([1, 1], 1), ([1, 8], 8), ([2, 2], 2), ([2, 7], 7), ([3, 3], 3), ([3, 6], 6),
       ([4, 4], 4), ([4, 5], 5), ([5, 4], 4), ([5, 5], 5), ([6, 3], 3), ([6, 6], 6), ([7, 2], 2),
       ([7, 7], 7), ([8, 1], 1), ([8, 8], 8), ([9, 9], 9)]"
    using main_writes_entries by blast
  have "size_m matrix = 18"
    by (simp add: size_m_def std_map_size.rep_eq e)
  moreover have "read_cell 0 2 matrix [1, 1] = Some (1, matrix)"
    by (simp add: read_cell_full index_value_lookup lookup_def e)
  moreover have "read_cell 0 2 matrix [0, 9] = Some (9, matrix)"
    by (simp add: read_cell_full index_value_lookup lookup_def e)
  moreover have "\<not> explicit matrix [0, 0]"
    by (simp add: explicit_lookup lookup_def e)
  moreover have "\<not> explicit matrix [9, 0]"
    by (simp add: explicit_lookup lookup_def e)
  ultimately show ?thesis using m by blast
qed

text \<open>\<^verbatim>\<open>size()\<close> after the two loops is 18; it is not 20.\<close>

theorem main_writes_size_not_20:
  "map_option size_m main_writes = Some 18 \<and> map_option size_m main_writes \<noteq> Some 20"
proof -
  obtain matrix where m: "main_writes = Some matrix"
    and e: "entries (data matrix) =
      [([0, 9], 9), ([1, 1], 1), ([1, 8], 8), ([2, 2], 2), ([2, 7], 7), ([3, 3], 3), ([3, 6], 6),
       ([4, 4], 4), ([4, 5], 5), ([5, 4], 4), ([5, 5], 5), ([6, 3], 3), ([6, 6], 6), ([7, 2], 2),
       ([7, 7], 7), ([8, 1], 1), ([8, 8], 8), ([9, 9], 9)]"
    using main_writes_entries by blast
  have "size_m matrix = 18"
    by (simp add: size_m_def std_map_size.rep_eq e)
  then show ?thesis by (simp add: m)
qed

text \<open>
  C6. A full enumeration of a matrix (over \<^verbatim>\<open>begin()\<close> and \<^verbatim>\<open>end()\<close>, or over \<^verbatim>\<open>cbegin()\<close>
  and \<^verbatim>\<open>cend()\<close>) returns, and what it returns is the list of the entries \<open>(c, v)\<close> of the
  container, the cells, each as the one tuple of the components of \<open>c\<close> followed by \<open>v\<close>.
  Of this list:
  the coordinates are strictly ascending in the order of \<^verbatim>\<open>std::tuple\<close>, which for
  tuples of the same size is decided by the first component that differs;
  a cell is in the list exactly when its coordinate holds an explicit entry and \<open>v\<close> is
  the value read there, and then it is there once;
  in a matrix that a program reaches from its start, every cell of the list has
  \<^verbatim>\<open>matrix_size\<close> coordinate components, and, provided that no statement of the program
  has assigned the default value through an iterator, a value other than the default
  value;
  and if the matrix is the result of a sequence of assignments to distinct
  coordinates, the same assignments in any other order give the same matrix, hence the
  same enumeration.
\<close>

theorem enumeration_ordered_cells:
  "enumeration m = Some (map (\<lambda>e. tuple_cat (fst e) (snd e)) (entries (data m)))
    \<and> const_enumeration m = Some (map (\<lambda>e. tuple_cat (fst e) (snd e)) (entries (data m)))
    \<and> sorted_wrt tuple_less (map fst (entries (data m)))
    \<and> (\<forall>a b. length a = length b \<longrightarrow>
          (tuple_less a b \<longleftrightarrow> (\<exists>i < length a. take i a = take i b \<and> a ! i < b ! i)))
    \<and> (\<forall>c v. (c, v) \<in> set (entries (data m)) \<longleftrightarrow>
          explicit m c \<and> index_value dv (Index_matrix_0 c) (data m) = v)
    \<and> (\<forall>c. explicit m c \<longrightarrow> length (filter (\<lambda>e. fst e = c) (entries (data m))) = 1)
    \<and> (\<forall>sts s x. run std dv N sts Map.empty = Some s \<and> N \<noteq> 0 \<and> s x = Some m \<longrightarrow>
          (\<forall>e \<in> set (entries (data m)). length (fst e) = unat N)
          \<and> ((\<forall>st \<in> set sts. \<not> default_through_iterator dv st) \<longrightarrow>
               (\<forall>e \<in> set (entries (data m)). snd e \<noteq> dv)))
    \<and> (\<forall>m0 ws ws'. assign_cells dv N m0 ws = Some m \<and> mset ws' = mset ws
            \<and> distinct (map fst ws) \<longrightarrow> assign_cells dv N m0 ws' = Some m)"
proof (intro conjI)
  let ?cells = "entries (data m)"
  show "enumeration m = Some (map (\<lambda>e. tuple_cat (fst e) (snd e)) ?cells)"
    by (rule enumeration_entries)
  show "const_enumeration m = Some (map (\<lambda>e. tuple_cat (fst e) (snd e)) ?cells)"
    by (rule const_enumeration_entries)
  show "sorted_wrt tuple_less (map fst ?cells)"
    by (rule sorted_tuple_less)
  show "\<forall>a b. length a = length b \<longrightarrow>
      (tuple_less a b \<longleftrightarrow> (\<exists>i < length a. take i a = take i b \<and> a ! i < b ! i))"
    by (intro allI impI) (rule tuple_less_first_difference)
  show "\<forall>c v. (c, v) \<in> set ?cells \<longleftrightarrow>
      explicit m c \<and> index_value dv (Index_matrix_0 c) (data m) = v"
    by (intro allI) (rule cells_explicit_value)
  show "\<forall>c. explicit m c \<longrightarrow> length (filter (\<lambda>e. fst e = c) ?cells) = 1"
  proof (intro allI impI)
    fix c
    assume "explicit m c"
    then obtain v where "map_of ?cells c = Some v"
      by (auto simp: explicit_lookup lookup_def)
    then have "filter (\<lambda>e. fst e = c) ?cells = [(c, v)]"
      by (rule filter_key_entries [OF distinct_entries])
    then show "length (filter (\<lambda>e. fst e = c) ?cells) = 1" by simp
  qed
  show "\<forall>sts s x. run std dv N sts Map.empty = Some s \<and> N \<noteq> 0 \<and> s x = Some m \<longrightarrow>
      (\<forall>e \<in> set ?cells. length (fst e) = unat N)
      \<and> ((\<forall>st \<in> set sts. \<not> default_through_iterator dv st) \<longrightarrow>
           (\<forall>e \<in> set ?cells. snd e \<noteq> dv))"
  proof (intro allI impI conjI)
    fix sts s x
    assume r: "run std dv N sts Map.empty = Some s \<and> N \<noteq> 0 \<and> s x = Some m"
    then have r1: "run std dv N sts Map.empty = Some s" and r2: "N \<noteq> 0" and r3: "s x = Some m"
      by simp_all
    have "\<forall>x m. s x = Some m \<longrightarrow> dimensioned N m"
      using r1 _ r2 by (rule run_dimensioned) simp
    then have "dimensioned N m"
      using r3 by simp
    then show "\<forall>e \<in> set ?cells. length (fst e) = unat N"
      by (simp add: dimensioned_def)
    assume it: "\<forall>st \<in> set sts. \<not> default_through_iterator dv st"
    have "\<forall>x m. s x = Some m \<longrightarrow> elided dv m"
      using r1 _ it by (rule run_elided) simp
    then have "elided dv m"
      using r3 by simp
    then show "\<forall>e \<in> set ?cells. snd e \<noteq> dv"
      by (simp add: elided_def)
  qed
  show "\<forall>m0 ws ws'. assign_cells dv N m0 ws = Some m \<and> mset ws' = mset ws
      \<and> distinct (map fst ws) \<longrightarrow> assign_cells dv N m0 ws' = Some m"
  proof (intro allI impI)
    fix m0 :: "'a sparse_matrix" and ws ws' :: "(index_t \<times> 'a) list"
    assume a: "assign_cells dv N m0 ws = Some m \<and> mset ws' = mset ws \<and> distinct (map fst ws)"
    then have a1: "assign_cells dv N m0 ws = Some m" and a2: "mset ws' = mset ws"
      and a3: "distinct (map fst ws)"
      by simp_all
    show "assign_cells dv N m0 ws' = Some m"
      unfolding assign_cells_permute [OF a2 a3] by (rule a1)
  qed
qed

theorem enumeration_ordered_cells_witness:
  "assign_cells (0 :: int) 2 sparse_matrix_default [([1, 2], 5), ([0, 7], 3)]
     = Some \<lparr>data = std_map_subscript_assign (std_map_subscript_assign std_map_empty [1, 2] 5) [0, 7] 3\<rparr>
   \<and> assign_cells (0 :: int) 2 sparse_matrix_default [([0, 7], 3), ([1, 2], 5)]
     = Some \<lparr>data = std_map_subscript_assign (std_map_subscript_assign std_map_empty [1, 2] 5) [0, 7] 3\<rparr>
   \<and> run Cxx14 (0 :: int) 2 [Default_construct 0, Assign 0 [1, 2] 5, Assign 0 [0, 7] 3] Map.empty
     = Some [0 \<mapsto> \<lparr>data = std_map_subscript_assign
          (std_map_subscript_assign std_map_empty [1, 2] 5) [0, 7] 3\<rparr>]
   \<and> entries (std_map_subscript_assign (std_map_subscript_assign std_map_empty [1, 2 :: size_t] 5)
        [0, 7] (3 :: int))
     = [([0, 7], 3), ([1, 2], 5)]
   \<and> enumeration
        \<lparr>data = std_map_subscript_assign (std_map_subscript_assign std_map_empty [1, 2] 5) [0, 7] (3 :: int)\<rparr>
     = Some [[Inl 0, Inl 7, Inr 3], [Inl 1, Inl 2, Inr 5]]
   \<and> const_enumeration
        \<lparr>data = std_map_subscript_assign (std_map_subscript_assign std_map_empty [1, 2] 5) [0, 7] (3 :: int)\<rparr>
     = Some [[Inl 0, Inl 7, Inr 3], [Inl 1, Inl 2, Inr 5]]
   \<and> tuple_less [0, 7] [1, 2]
   \<and> explicit
        \<lparr>data = std_map_subscript_assign (std_map_subscript_assign std_map_empty [1, 2] 5) [0, 7] (3 :: int)\<rparr>
        [1, 2]"
proof -
  let ?d = "std_map_subscript_assign (std_map_subscript_assign std_map_empty [1, 2 :: size_t] 5)
      [0, 7] (3 :: int)"
  let ?m = "\<lparr>data = ?d\<rparr>"
  let ?p = "[Default_construct 0, Assign 0 [1, 2] 5, Assign 0 [0, 7] 3] :: int statement list"
  note t = enumeration_ordered_cells [where m = ?m and dv = 0 and N = 2 and std = Cxx14]
  note t_enumeration = t [THEN conjunct1]
  note t_const = t [THEN conjunct2, THEN conjunct1]
  note t_sorted = t [THEN conjunct2, THEN conjunct2, THEN conjunct1]
  note t_cells = t [THEN conjunct2, THEN conjunct2, THEN conjunct2, THEN conjunct2, THEN conjunct1]
  note t_order = t [THEN conjunct2, THEN conjunct2, THEN conjunct2, THEN conjunct2,
      THEN conjunct2, THEN conjunct2, THEN conjunct2]
  have w: "assign_cells (0 :: int) 2 sparse_matrix_default [([1, 2], 5), ([0, 7], 3)] = Some ?m"
    by (simp add: assign_cell_full index_assign.simps sparse_matrix_default_def)
  have p: "mset [([0, 7 :: size_t], 3 :: int), ([1, 2], 5)] = mset [([1, 2], 5), ([0, 7], 3)]"
    by simp
  have d: "distinct (map fst [([1, 2 :: size_t], 5 :: int), ([0, 7], 3)])"
    by simp
  have w': "assign_cells (0 :: int) 2 sparse_matrix_default [([0, 7], 3), ([1, 2], 5)] = Some ?m"
    using t_order w p d
    by (elim allE [of _ sparse_matrix_default] allE [of _ "[([1, 2], 5), ([0, 7], 3)]"]
        allE [of _ "[([0, 7], 3), ([1, 2], 5)]"]) (simp only:)
  have r: "run Cxx14 (0 :: int) 2 ?p Map.empty = Some [0 \<mapsto> ?m]"
    by (simp add: assign_cell_full index_assign.simps sparse_matrix_default_def)
  have e: "entries ?d = [([0, 7], 3), ([1, 2], 5)]"
    by (simp add: std_map_rep)
  have en: "enumeration ?m = Some [[Inl 0, Inl 7, Inr 3], [Inl 1, Inl 2, Inr 5]]"
    using t_enumeration by (simp add: e tuple_cat_def)
  have cen: "const_enumeration ?m = Some [[Inl 0, Inl 7, Inr 3], [Inl 1, Inl 2, Inr 5]]"
    using t_const by (simp add: e tuple_cat_def)
  have less: "tuple_less [0, 7] [1, 2]"
    using t_sorted by (simp add: e)
  have ex: "explicit ?m [1, 2]"
    using t_cells e by (elim allE [of _ "[1, 2]"] allE [of _ 5]) simp
  show ?thesis
    by (intro conjI w w' r e en cen less ex)
qed

text \<open>
  An enumeration can produce a cell that holds the default value. After
  \<^verbatim>\<open>sparse_matrix<int> m; m[1][2] = 5; std::get<2>(*m.begin()) = 0;\<close>
  the matrix has one entry, both enumerations of it produce the one tuple \<open>(1, 2, 0)\<close>,
  whose value is the default value 0, and reading \<^verbatim>\<open>m[1][2]\<close> gives 0.
\<close>

theorem enumeration_default_cell:
  "run Cxx14 (0 :: int) 2
      [Default_construct 0, Assign 0 [1, 2] 5, Iterator_assign 0 0 0] Map.empty
     = Some [0 \<mapsto> iterator_assign_value
          \<lparr>data = std_map_subscript_assign std_map_empty [1, 2] 5\<rparr> (Iterator_matrix 0) 0]
   \<and> enumeration (iterator_assign_value
          \<lparr>data = std_map_subscript_assign std_map_empty [1, 2] (5 :: int)\<rparr> (Iterator_matrix 0) 0)
     = Some [[Inl 1, Inl 2, Inr 0]]
   \<and> const_enumeration (iterator_assign_value
          \<lparr>data = std_map_subscript_assign std_map_empty [1, 2] (5 :: int)\<rparr> (Iterator_matrix 0) 0)
     = Some [[Inl 1, Inl 2, Inr 0]]
   \<and> size_m (iterator_assign_value
          \<lparr>data = std_map_subscript_assign std_map_empty [1, 2] (5 :: int)\<rparr> (Iterator_matrix 0) 0)
     = 1
   \<and> map_option fst (read_cell 0 2 (iterator_assign_value
          \<lparr>data = std_map_subscript_assign std_map_empty [1, 2] (5 :: int)\<rparr> (Iterator_matrix 0) 0)
        [1, 2])
     = Some 0"
proof -
  let ?m = "\<lparr>data = std_map_subscript_assign std_map_empty [1, 2 :: size_t] (5 :: int)\<rparr>"
  let ?m' = "iterator_assign_value ?m (Iterator_matrix 0) 0"
  have e: "entries (data ?m') = [([1, 2], 0)]"
    by (simp add: std_map_rep assign_second_raw_def)
  have r: "run Cxx14 (0 :: int) 2
      [Default_construct 0, Assign 0 [1, 2] 5, Iterator_assign 0 0 0] Map.empty = Some [0 \<mapsto> ?m']"
    by (simp add: assign_cell_full sparse_matrix_default_def index_assign.simps size_m_def
        begin_m_def std_map_rep)
  have en: "enumeration ?m' = Some [[Inl 1, Inl 2, Inr 0]]"
    by (simp only: enumeration_entries e) (simp add: tuple_cat_def)
  have cen: "const_enumeration ?m' = Some [[Inl 1, Inl 2, Inr 0]]"
    by (simp only: const_enumeration_entries e) (simp add: tuple_cat_def)
  have sz: "size_m ?m' = 1"
    by (simp only: size_m_def std_map_size.rep_eq e) simp
  have rd: "map_option fst (read_cell 0 2 ?m' [1, 2]) = Some 0"
    unfolding read_cell_full [of 2 "[1, 2]", simplified] index_value_lookup lookup_def e
    by simp
  show ?thesis
    by (intro conjI r en cen sz rd)
qed

text \<open>
  C7. Let \<open>it\<close> be the iterator that \<open>n\<close> increments of \<^verbatim>\<open>begin()\<close> give, with \<open>n\<close> less than
  \<^verbatim>\<open>size()\<close>, so that \<open>it\<close> is not \<^verbatim>\<open>end()\<close> and refers to an entry, with coordinate \<open>c\<close>.
  Assigning a value \<open>v\<close> through the value component of \<^verbatim>\<open>*it\<close> replaces the stored value
  in place: \<^verbatim>\<open>size()\<close> and the coordinates of the entries are unchanged, the entry of \<open>c\<close>
  now holds \<open>v\<close>, and \<^verbatim>\<open>*it\<close> is the tuple of \<open>c\<close> and \<open>v\<close>. This holds for the default value
  too: the entry stays in the container, with the default value as its value, and \<open>c\<close>
  still holds an explicit entry.
\<close>

theorem iterator_write_keeps_entry:
  assumes "n < size_m m"
  shows "iterator_neq ((iterator_incr ^^ n) (begin_m m)) (end_m m)
       \<and> (\<exists>c m'. c = fst (std_map_deref (data m) n)
             \<and> m' = iterator_assign_value m ((iterator_incr ^^ n) (begin_m m)) v
             \<and> size_m m' = size_m m
             \<and> map fst (entries (data m')) = map fst (entries (data m))
             \<and> (c, v) \<in> set (entries (data m'))
             \<and> explicit m' c
             \<and> iterator_deref m' ((iterator_incr ^^ n) (begin_m m)) = tuple_cat c v
             \<and> (v = dv \<longrightarrow> \<not> elided dv m'))"
proof -
  define c where "c = fst (std_map_deref (data m) n)"
  define m' where "m' = iterator_assign_value m ((iterator_incr ^^ n) (begin_m m)) v"
  have lt: "n < std_map_size (data m)" and len: "n < length (entries (data m))"
    using assms by (simp_all add: size_m_def std_map_size.rep_eq)
  have m': "data m' = std_map_assign_second (data m) n v"
    by (simp add: m'_def iterator_incr_funpow)
  have ne: "iterator_neq ((iterator_incr ^^ n) (begin_m m)) (end_m m)"
    using lt by (simp add: iterator_incr_funpow iterator_neq_def end_m_def std_map_end_def)
  have ent: "entries (data m') = (entries (data m))[n := (c, v)]"
    unfolding m' c_def std_map_deref_def using lt by (rule entries_assign_second)
  have sz: "size_m m' = size_m m"
    by (simp add: size_m_def m' size_assign_second)
  have keys: "map fst (entries (data m')) = map fst (entries (data m))"
    using len by (simp add: ent map_update c_def std_map_deref_def list_update_same_conv)
  have mem: "(c, v) \<in> set (entries (data m'))"
    unfolding ent using len by (rule set_update_memI)
  then have look: "lookup (data m') c = Some v"
    by (simp add: entries_lookup)
  then have ex: "explicit m' c"
    by (simp add: explicit_lookup)
  have de: "iterator_deref m' ((iterator_incr ^^ n) (begin_m m)) = tuple_cat c v"
    using len by (simp add: iterator_incr_funpow std_map_deref_def ent)
  have stale: "v = dv \<longrightarrow> \<not> elided dv m'"
    using look unfolding elided_lookup by blast
  show ?thesis
    using ne sz keys mem ex de stale c_def m'_def by blast
qed

theorem iterator_write_keeps_entry_witness:
  "size_m \<lparr>data = std_map_subscript_assign std_map_empty [1, 2] (5 :: int)\<rparr> = 1
   \<and> begin_m \<lparr>data = std_map_subscript_assign std_map_empty [1, 2] (5 :: int)\<rparr> = Iterator_matrix 0
   \<and> iterator_neq (Iterator_matrix 0)
        (end_m \<lparr>data = std_map_subscript_assign std_map_empty [1, 2] (5 :: int)\<rparr>)
   \<and> entries (data (iterator_assign_value
          \<lparr>data = std_map_subscript_assign std_map_empty [1, 2] (5 :: int)\<rparr> (Iterator_matrix 0) 0))
       = [([1, 2], 0)]
   \<and> explicit (iterator_assign_value
          \<lparr>data = std_map_subscript_assign std_map_empty [1, 2] (5 :: int)\<rparr> (Iterator_matrix 0) 0)
        [1, 2]
   \<and> \<not> elided 0 (iterator_assign_value
          \<lparr>data = std_map_subscript_assign std_map_empty [1, 2] (5 :: int)\<rparr> (Iterator_matrix 0) 0)
   \<and> entries (data \<lparr>data = index_assign 0 (Index_matrix_0 [1, 2])  0
          (std_map_subscript_assign std_map_empty [1, 2] (5 :: int))\<rparr>) = []"
proof -
  let ?m = "\<lparr>data = std_map_subscript_assign std_map_empty [1, 2 :: size_t] (5 :: int)\<rparr>"
  have sz: "size_m ?m = 1"
    by (simp add: size_m_def std_map_rep)
  then have h: "0 < size_m ?m" by simp
  have b: "begin_m ?m = Iterator_matrix 0"
    by (simp add: begin_m_def std_map_rep)
  have c: "fst (std_map_deref (std_map_subscript_assign std_map_empty [1, 2 :: size_t] (5 :: int)) 0)
      = [1, 2]"
    by (simp add: std_map_rep)
  have e: "entries (data (iterator_assign_value ?m (Iterator_matrix 0) 0)) = [([1, 2], 0)]"
    by (simp add: std_map_rep assign_second_raw_def)
  have a: "entries (data \<lparr>data = index_assign 0 (Index_matrix_0 [1, 2]) 0
          (std_map_subscript_assign std_map_empty [1, 2 :: size_t] (5 :: int))\<rparr>) = []"
    by (simp add: index_assign.simps std_map_rep)
  have "iterator_neq (Iterator_matrix 0) (end_m ?m)
      \<and> explicit (iterator_assign_value ?m (Iterator_matrix 0) 0) [1, 2]
      \<and> \<not> elided 0 (iterator_assign_value ?m (Iterator_matrix 0) 0)"
    using iterator_write_keeps_entry [OF h, of 0 0] by (simp add: b c)
  then show ?thesis using sz b e a by simp
qed

text \<open>
  C8. Let \<open>x\<close> be made a copy of another matrix \<open>y\<close>, by copy construction or by copy
  assignment. Then \<open>x\<close> has the entries of \<open>y\<close>, and the two are independent: whatever
  statements run afterwards, as long as none of them writes \<open>y\<close> (as the assignments to
  cells of \<open>x\<close>, the assignments through iterators of \<open>x\<close> and \<^verbatim>\<open>x.clear()\<close> do not), \<open>y\<close>
  stays as it was; and as long as none of them writes \<open>x\<close>, \<open>x\<close> stays as it was.
\<close>

theorem copy_independent:
  assumes "st = Copy_construct x y \<or> st = Copy_assign x y" and "x \<noteq> y"
    and "exec std dv N st s = Some s1"
  shows "\<exists>original copy. s y = Some original \<and> s1 y = Some original \<and> s1 x = Some copy
           \<and> entries (data copy) = entries (data original)
           \<and> (\<forall>sts s2. run std dv N sts s1 = Some s2 \<and> (\<forall>st' \<in> set sts. y \<notin> writes st')
                 \<longrightarrow> s2 y = Some original)
           \<and> (\<forall>sts s2. run std dv N sts s1 = Some s2 \<and> (\<forall>st' \<in> set sts. x \<notin> writes st')
                 \<longrightarrow> s2 x = Some copy)"
proof -
  obtain original copy where o: "s y = Some original" and o1: "s1 y = Some original"
    and c1: "s1 x = Some copy" and d: "data copy = data original"
    using exec_copy [OF assms] by blast
  have keep_y: "\<forall>sts s2. run std dv N sts s1 = Some s2 \<and> (\<forall>st' \<in> set sts. y \<notin> writes st')
      \<longrightarrow> s2 y = Some original"
    using run_frame [of std dv N _ s1 _ y] o1 by metis
  have keep_x: "\<forall>sts s2. run std dv N sts s1 = Some s2 \<and> (\<forall>st' \<in> set sts. x \<notin> writes st')
      \<longrightarrow> s2 x = Some copy"
    using run_frame [of std dv N _ s1 _ x] c1 by metis
  show ?thesis
    using o o1 c1 d keep_y keep_x by auto
qed

theorem copy_independent_witness:
  "(1 :: nat) \<noteq> 0
   \<and> exec Cxx14 (0 :: int) 2 (Copy_construct 1 0)
        [0 \<mapsto> \<lparr>data = std_map_subscript_assign std_map_empty [1, 2] 5\<rparr>]
      = Some [0 \<mapsto> \<lparr>data = std_map_subscript_assign std_map_empty [1, 2] 5\<rparr>,
              1 \<mapsto> \<lparr>data = std_map_subscript_assign std_map_empty [1, 2] 5\<rparr>]
   \<and> (\<exists>s2. run Cxx14 (0 :: int) 2 [Assign 1 [1, 2] 0, Assign 1 [3, 4] 9, Iterator_assign 1 0 4, Clear 1]
              [0 \<mapsto> \<lparr>data = std_map_subscript_assign std_map_empty [1, 2] 5\<rparr>,
               1 \<mapsto> \<lparr>data = std_map_subscript_assign std_map_empty [1, 2] 5\<rparr>] = Some s2
           \<and> s2 1 = Some \<lparr>data = std_map_empty\<rparr>
           \<and> s2 0 = Some \<lparr>data = std_map_subscript_assign std_map_empty [1, 2] 5\<rparr>)
   \<and> (\<exists>s2. run Cxx14 (0 :: int) 2 [Assign 0 [1, 2] 0, Assign 0 [3, 4] 9]
              [0 \<mapsto> \<lparr>data = std_map_subscript_assign std_map_empty [1, 2] 5\<rparr>,
               1 \<mapsto> \<lparr>data = std_map_subscript_assign std_map_empty [1, 2] 5\<rparr>] = Some s2
           \<and> s2 0 = Some \<lparr>data = std_map_subscript_assign std_map_empty [3, 4] 9\<rparr>
           \<and> s2 1 = Some \<lparr>data = std_map_subscript_assign std_map_empty [1, 2] 5\<rparr>)"
proof -
  let ?m = "\<lparr>data = std_map_subscript_assign std_map_empty [1, 2 :: size_t] (5 :: int)\<rparr>"
  let ?s = "[0 \<mapsto> ?m]"
  let ?s1 = "[0 \<mapsto> ?m, 1 \<mapsto> ?m]"
  let ?on_copy = "[Assign 1 [1, 2] 0, Assign 1 [3, 4] 9, Iterator_assign 1 0 4, Clear 1]
      :: int statement list"
  let ?on_original = "[Assign 0 [1, 2] 0, Assign 0 [3, 4] 9] :: int statement list"
  have h1: "Copy_construct 1 0 = Copy_construct 1 0
      \<or> (Copy_construct 1 0 :: int statement) = Copy_assign 1 0"
    by simp
  have h2: "(1 :: nat) \<noteq> 0" by simp
  have h3: "exec Cxx14 (0 :: int) 2 (Copy_construct 1 0) ?s = Some ?s1"
    by (simp add: copy_ctor_def)
  obtain rc where rc: "run Cxx14 (0 :: int) 2 ?on_copy ?s1 = Some rc"
    and rc1: "rc 1 = Some \<lparr>data = std_map_empty\<rparr>"
    by (simp add: assign_cell_full index_assign.simps clear_def size_m_def iterator_incr_funpow
        std_map_rep std_map_eq_entries)
  obtain ro where ro: "run Cxx14 (0 :: int) 2 ?on_original ?s1 = Some ro"
    and ro0: "ro 0 = Some \<lparr>data = std_map_subscript_assign std_map_empty [3, 4] 9\<rparr>"
    by (simp add: assign_cell_full index_assign.simps clear_def std_map_rep std_map_eq_entries)
  have keep: "(\<forall>sts s2. run Cxx14 (0 :: int) 2 sts ?s1 = Some s2 \<and> (\<forall>st' \<in> set sts. 0 \<notin> writes st')
        \<longrightarrow> s2 0 = Some ?m)
    \<and> (\<forall>sts s2. run Cxx14 (0 :: int) 2 sts ?s1 = Some s2 \<and> (\<forall>st' \<in> set sts. 1 \<notin> writes st')
        \<longrightarrow> s2 1 = Some ?m)"
    using copy_independent [OF h1 h2 h3] by simp
  have "rc 0 = Some ?m"
    using keep rc by (elim conjE allE [of _ ?on_copy] allE [of _ rc]) simp
  moreover have "ro 1 = Some ?m"
    using keep ro by (elim conjE allE [of _ ?on_original] allE [of _ ro]) simp
  ultimately show ?thesis
    using h2 h3 rc rc1 ro ro0 by simp
qed

text \<open>
  C9. The copy assignment \<^verbatim>\<open>x = y\<close> guards the copy with \<^verbatim>\<open>*this != other\<close>, and the class
  declares no \<^verbatim>\<open>operator!=\<close>. Built as C++14 or as C++17, the program
  \<^verbatim>\<open>sparse_matrix<int> a, b; a[1][2] = 5; b[3][4] = 7; a = b;\<close>
  is ill-formed at its last statement: the four statements before it give \<open>a\<close> the
  entry \<open>((1, 2), 5)\<close> and \<open>b\<close> the entry \<open>((3, 4), 7)\<close>, and in that state neither the copy
  assignment \<^verbatim>\<open>a = b;\<close> nor the self-assignment \<^verbatim>\<open>a = a;\<close> has a result. Nothing is
  copied.
\<close>

theorem copy_assignment_ill_formed:
  "run Cxx14 (0 :: int) 2
      [Default_construct 0, Default_construct 1, Assign 0 [1, 2] 5, Assign 1 [3, 4] 7] Map.empty
     = Some [0 \<mapsto> \<lparr>data = std_map_subscript_assign std_map_empty [1, 2] 5\<rparr>,
             1 \<mapsto> \<lparr>data = std_map_subscript_assign std_map_empty [3, 4] 7\<rparr>]
   \<and> exec Cxx14 (0 :: int) 2 (Copy_assign 0 1)
        [0 \<mapsto> \<lparr>data = std_map_subscript_assign std_map_empty [1, 2] 5\<rparr>,
         1 \<mapsto> \<lparr>data = std_map_subscript_assign std_map_empty [3, 4] 7\<rparr>] = None
   \<and> exec Cxx14 (0 :: int) 2 (Copy_assign 0 0)
        [0 \<mapsto> \<lparr>data = std_map_subscript_assign std_map_empty [1, 2] 5\<rparr>,
         1 \<mapsto> \<lparr>data = std_map_subscript_assign std_map_empty [3, 4] 7\<rparr>] = None
   \<and> exec Cxx17 (0 :: int) 2 (Copy_assign 0 1)
        [0 \<mapsto> \<lparr>data = std_map_subscript_assign std_map_empty [1, 2] 5\<rparr>,
         1 \<mapsto> \<lparr>data = std_map_subscript_assign std_map_empty [3, 4] 7\<rparr>] = None
   \<and> exec Cxx17 (0 :: int) 2 (Copy_assign 0 0)
        [0 \<mapsto> \<lparr>data = std_map_subscript_assign std_map_empty [1, 2] 5\<rparr>,
         1 \<mapsto> \<lparr>data = std_map_subscript_assign std_map_empty [3, 4] 7\<rparr>] = None"
proof -
  let ?a = "\<lparr>data = std_map_subscript_assign std_map_empty [1, 2 :: size_t] (5 :: int)\<rparr>"
  let ?b = "\<lparr>data = std_map_subscript_assign std_map_empty [3, 4 :: size_t] (7 :: int)\<rparr>"
  have r: "run Cxx14 (0 :: int) 2
      [Default_construct 0, Default_construct 1, Assign 0 [1, 2] 5, Assign 1 [3, 4] 7] Map.empty
     = Some [0 \<mapsto> ?a, 1 \<mapsto> ?b]"
    by (simp add: assign_cell_full sparse_matrix_default_def index_assign.simps fun_eq_iff)
  have c14: "exec Cxx14 (0 :: int) 2 (Copy_assign 0 1) [0 \<mapsto> ?a, 1 \<mapsto> ?b] = None"
    by (simp add: copy_assign_def)
  have s14: "exec Cxx14 (0 :: int) 2 (Copy_assign 0 0) [0 \<mapsto> ?a, 1 \<mapsto> ?b] = None"
    by (simp add: copy_assign_def)
  have c17: "exec Cxx17 (0 :: int) 2 (Copy_assign 0 1) [0 \<mapsto> ?a, 1 \<mapsto> ?b] = None"
    by (simp add: copy_assign_def)
  have s17: "exec Cxx17 (0 :: int) 2 (Copy_assign 0 0) [0 \<mapsto> ?a, 1 \<mapsto> ?b] = None"
    by (simp add: copy_assign_def)
  show ?thesis
    by (intro conjI r c14 s14 c17 s17)
qed

text \<open>
  C10. If the coordinate \<open>c\<close> of the matrix holds no explicit entry, then assigning any
  value \<open>v\<close> to it and assigning the default value to it afterwards gives back the
  matrix as it was.
\<close>

theorem assign_then_default_restores:
  assumes "N \<noteq> 0" and "length c = unat N" and "\<not> explicit m c"
  shows "\<exists>m1. assign_cell dv N m c v = Some m1 \<and> assign_cell dv N m1 c dv = Some m"
proof -
  define m1 where "m1 = m\<lparr>data := index_assign dv (Index_matrix_0 c) v (data m)\<rparr>"
  define m2 where "m2 = m1\<lparr>data := index_assign dv (Index_matrix_0 c) dv (data m1)\<rparr>"
  have a1: "assign_cell dv N m c v = Some m1"
    unfolding m1_def using assms(1,2) by (rule assign_cell_full)
  have a2: "assign_cell dv N m1 c dv = Some m2"
    unfolding m2_def using assms(1,2) by (rule assign_cell_full)
  have none: "lookup (data m) c = None"
    using assms(3) by (simp add: explicit_lookup)
  have "lookup (data m2) = (lookup (data m1))(c := None)"
    by (simp add: lookup_assign_cell [OF a2])
  also have "\<dots> = (lookup (data m))(c := None)"
    by (simp add: lookup_assign_cell [OF a1])
  also have "\<dots> = lookup (data m)"
    using none by (rule fun_upd_idem)
  finally have "data m2 = data m"
    by (rule std_map_eqI)
  then have "m2 = m"
    by (simp add: m2_def m1_def)
  then show ?thesis using a1 a2 by blast
qed

theorem assign_then_default_restores_witness:
  "(2 :: size_t) \<noteq> 0 \<and> length [1, 2 :: size_t] = unat (2 :: size_t)
   \<and> \<not> explicit (sparse_matrix_default :: int sparse_matrix) [1, 2]
   \<and> (\<exists>m1. assign_cell 0 2 sparse_matrix_default [1, 2] (5 :: int) = Some m1
         \<and> assign_cell 0 2 m1 [1, 2] 0 = Some sparse_matrix_default)"
proof -
  have h1: "(2 :: size_t) \<noteq> 0" by simp
  have h2: "length [1, 2 :: size_t] = unat (2 :: size_t)" by simp
  have h3: "\<not> explicit (sparse_matrix_default :: int sparse_matrix) [1, 2]"
    by (simp add: explicit_lookup sparse_matrix_default_def lookup_empty)
  show ?thesis
    using assign_then_default_restores [OF h1 h2 h3, of 0 5] h1 h2 h3 by simp
qed

end
